theory Spec2Isabelle
  imports Complex_Main "HOL-Library.Word" "HOL-Library.Char_ord" "HOL-Library.List_Lexorder"
begin

section \<open>JavaScript values and strings\<close>

text \<open>
  The services receive parsed JSON. A field of a raw record is a JavaScript value; the
  guards of the source (\<^verbatim>\<open>!x\<close>, \<^verbatim>\<open>typeof x !== 'string'\<close>, \<^verbatim>\<open>x || y\<close>)
  distinguish the cases below. A number is one of the integers from -2^53 to
  2^53 - 1, which the number format of the language holds exactly and prints in
  plain decimal: a signed word of 54 bits, read with \<open>sint\<close>. A string is a list of code
  units; the model keeps the code units below 256, which covers every character the
  patterns of the source name.
\<close>

datatype jsval = Undefined | Null | Bool bool | Num "54 word" | Str string

fun truthy :: "jsval \<Rightarrow> bool" where
  "truthy Undefined = False"
| "truthy Null = False"
| "truthy (Bool b) = b"
| "truthy (Num n) = (n \<noteq> 0)"
| "truthy (Str s) = (s \<noteq> [])"

text \<open>\<^verbatim>\<open>a || b\<close> on values.\<close>

definition js_or :: "jsval \<Rightarrow> jsval \<Rightarrow> jsval" where
  "js_or a b = (if truthy a then a else b)"

text \<open>The characters matched by \<^verbatim>\<open>\s\<close> and removed by \<^verbatim>\<open>trim()\<close>, below 256.\<close>

definition isWhitespace :: "char \<Rightarrow> bool" where
  "isWhitespace c = (c \<in> set [CHR 0x09, CHR 0x0A, CHR 0x0B, CHR 0x0C, CHR 0x0D, CHR 0x20, CHR 0xA0])"

definition trim :: "string \<Rightarrow> string" where
  "trim s = rev (dropWhile isWhitespace (rev (dropWhile isWhitespace s)))"

text \<open>\<^verbatim>\<open>\d\<close> is the ten ASCII digits.\<close>

definition isDigit :: "char \<Rightarrow> bool" where
  "isDigit c = (c \<in> set ''0123456789'')"

definition digitVal :: "char \<Rightarrow> nat" where
  "digitVal c = (case map_of (zip ''0123456789'' [0, 1, 2, 3, 4, 5, 6, 7, 8, 9]) c of
                   Some d \<Rightarrow> d | None \<Rightarrow> 0)"

definition digitChar :: "nat \<Rightarrow> char" where
  "digitChar d = ''0123456789'' ! (d mod 10)"

text \<open>\<^verbatim>\<open>parseInt(s, 10)\<close> on a string of digits.\<close>

definition parseDigits :: "string \<Rightarrow> nat" where
  "parseDigits s = foldl (\<lambda>acc c. 10 * acc + digitVal c) 0 s"

text \<open>\<^verbatim>\<open>n.toString()\<close> for a non-negative integer.\<close>

function toDecimal :: "nat \<Rightarrow> string" where
  "toDecimal n = (if n < 10 then [digitChar n] else toDecimal (n div 10) @ [digitChar n])"
  by pat_completeness auto
termination
  by (relation "measure id") auto

declare toDecimal.simps [simp del]

definition padStart2 :: "string \<Rightarrow> string" where
  "padStart2 s = replicate (2 - length s) (CHR ''0'') @ s"

text \<open>
  Case-insensitive matching without the unicode flag compares the upper-case forms of
  two code units; a code unit outside ASCII never folds onto an ASCII letter.
\<close>

definition toUpperChar :: "char \<Rightarrow> char" where
  "toUpperChar c = (case map_of (zip ''abcdefghijklmnopqrstuvwxyz'' ''ABCDEFGHIJKLMNOPQRSTUVWXYZ'') c of
                      Some u \<Rightarrow> u | None \<Rightarrow> c)"

definition toUpperCase :: "string \<Rightarrow> string" where
  "toUpperCase s = map toUpperChar s"

text \<open>\<open>prefixCI p s\<close>: the literal \<open>p\<close> matches at the start of \<open>s\<close> under the \<^verbatim>\<open>i\<close> flag.\<close>

fun prefixCI :: "string \<Rightarrow> string \<Rightarrow> bool" where
  "prefixCI [] s = True"
| "prefixCI (p # ps) [] = False"
| "prefixCI (p # ps) (c # cs) = (toUpperChar p = toUpperChar c \<and> prefixCI ps cs)"

section \<open>courseService: the day parser\<close>

text \<open>The lookup table \<^verbatim>\<open>dayMap\<close> of \<^verbatim>\<open>parseDays\<close>; its keys are compared exactly.\<close>

definition dayMap :: "(string \<times> nat) list" where
  "dayMap =
    [(''M'', 0), (''Mo'', 0), (''Monday'', 0),
     (''T'', 1), (''Tu'', 1), (''Tuesday'', 1),
     (''W'', 2), (''We'', 2), (''Wednesday'', 2),
     (''R'', 3), (''Th'', 3), (''Thursday'', 3),
     (''F'', 4), (''Fr'', 4), (''Friday'', 4),
     (''S'', 5), (''Sa'', 5), (''Saturday'', 5),
     (''U'', 6), (''Su'', 6), (''Sunday'', 6)]"

text \<open>The alternatives of \<^verbatim>\<open>dayPattern\<close>, in the order the pattern tries them.\<close>

definition dayPatternAlts :: "string list" where
  "dayPatternAlts =
    [''Mo'', ''Tu'', ''We'', ''Th'', ''Fr'', ''Sa'', ''Su'',
     ''M'', ''T'', ''W'', ''R'', ''F'', ''S'', ''U'',
     ''Monday'', ''Tuesday'', ''Wednesday'', ''Thursday'', ''Friday'', ''Saturday'', ''Sunday'']"

text \<open>
  One attempt of the alternation at the start of \<open>s\<close>: the first alternative that matches
  wins, and the capture group holds the text of \<open>s\<close> it matched (in the case \<open>s\<close> has it).
\<close>

fun matchAlt :: "string list \<Rightarrow> string \<Rightarrow> string option" where
  "matchAlt [] s = None"
| "matchAlt (a # as) s = (if prefixCI a s then Some (take (length a) s) else matchAlt as s)"

lemma prefixCI_length: "prefixCI p s \<Longrightarrow> length p \<le> length s"
  by (induction p s rule: prefixCI.induct) auto

lemma matchAlt_length:
  "matchAlt as s = Some m \<Longrightarrow> \<exists>a \<in> set as. length m = length a \<and> prefixCI a s"
  by (induction as) (auto split: if_splits dest: prefixCI_length)

lemma matchAlt_day_nonempty: "matchAlt dayPatternAlts s = Some m \<Longrightarrow> m \<noteq> []"
  by (drule matchAlt_length) (auto simp: dayPatternAlts_def)

text \<open>
  The loop \<^verbatim>\<open>while ((match = dayPattern.exec(dayString)) !== null)\<close> with the
  \<^verbatim>\<open>g\<close> flag: the list of captures, left to right. A match moves the scan behind
  itself, a failure at a position moves it one code unit on.
\<close>

function execAll :: "string \<Rightarrow> string list" where
  "execAll [] = []"
| "execAll (c # cs) =
     (case matchAlt dayPatternAlts (c # cs) of
        None \<Rightarrow> execAll cs
      | Some m \<Rightarrow> m # execAll (drop (length m) (c # cs)))"
  by pat_completeness auto
termination
  by (relation "measure length") (auto dest: matchAlt_day_nonempty)

text \<open>The body of the loop: a capture found in the table and not yet present is pushed.\<close>

fun collectDays :: "nat list \<Rightarrow> string list \<Rightarrow> nat list" where
  "collectDays days [] = days"
| "collectDays days (m # ms) =
     (case map_of dayMap m of
        Some dayNum \<Rightarrow>
          if dayNum \<notin> set days then collectDays (days @ [dayNum]) ms else collectDays days ms
      | None \<Rightarrow> collectDays days ms)"

text \<open>
  \<^verbatim>\<open>days.sort()\<close> without a comparator orders the elements by their string forms,
  code unit by code unit, and is stable.
\<close>

definition js_sort :: "nat list \<Rightarrow> nat list" where
  "js_sort xs = sort_key toDecimal xs"

fun parseDays :: "jsval \<Rightarrow> nat list" where
  "parseDays (Str dayString) =
     (if dayString = [] then [] else js_sort (collectDays [] (execAll dayString)))"
| "parseDays v = []"

section \<open>courseService: the time parser\<close>

text \<open>
  \<^verbatim>\<open>timePattern = /^(\d{1,2}):(\d{2})(?::(\d{2}))?(?:\s*(AM|PM))?$/i\<close>, matched
  against the trimmed string. Each function below matches one part of the pattern and
  everything behind it: a greedy part is tried first and given up when the rest of the
  pattern fails behind it.
\<close>

text \<open>
  \<^verbatim>\<open>(?:\s*(AM|PM))?$\<close>: the result is the period capture (\<open>None\<close> when the group
  did not take part). Giving back white space never helps, as neither \<^verbatim>\<open>AM\<close> nor
  \<^verbatim>\<open>PM\<close> starts with white space.
\<close>

definition matchPeriod :: "string \<Rightarrow> string option option" where
  "matchPeriod r =
     (let r' = dropWhile isWhitespace r in
      if (prefixCI ''AM'' r' \<or> prefixCI ''PM'' r') \<and> drop 2 r' = [] then Some (Some (take 2 r'))
      else if r = [] then Some None
      else None)"

text \<open>\<^verbatim>\<open>(?::(\d{2}))?\<close> followed by the period part: seconds capture and period capture.\<close>

definition matchSeconds :: "string \<Rightarrow> (string option \<times> string option) option" where
  "matchSeconds r =
     (case r of
        c0 # s1 # s2 # r' \<Rightarrow>
          if c0 = CHR '':'' \<and> isDigit s1 \<and> isDigit s2 then
            (case matchPeriod r' of
               Some p \<Rightarrow> Some (Some [s1, s2], p)
             | None \<Rightarrow> map_option (Pair None) (matchPeriod r))
          else map_option (Pair None) (matchPeriod r)
      | _ \<Rightarrow> map_option (Pair None) (matchPeriod r))"

text \<open>\<^verbatim>\<open>:(\d{2})\<close> followed by the rest.\<close>

definition matchMinute :: "string \<Rightarrow> (string \<times> string option \<times> string option) option" where
  "matchMinute r =
     (case r of
        c0 # m1 # m2 # r' \<Rightarrow>
          if c0 = CHR '':'' \<and> isDigit m1 \<and> isDigit m2
          then map_option (Pair [m1, m2]) (matchSeconds r')
          else None
      | _ \<Rightarrow> None)"

text \<open>\<^verbatim>\<open>^(\d{1,2})\<close> followed by the rest: the captures hour, minute, second, period.\<close>

definition timePattern_match ::
  "string \<Rightarrow> (string \<times> string \<times> string option \<times> string option) option" where
  "timePattern_match s =
     (case s of
        h1 # h2 # r \<Rightarrow>
          if isDigit h1 \<and> isDigit h2 then
            (case matchMinute r of
               Some g \<Rightarrow> Some ([h1, h2], g)
             | None \<Rightarrow> map_option (Pair [h1]) (matchMinute (h2 # r)))
          else if isDigit h1 then map_option (Pair [h1]) (matchMinute (h2 # r))
          else None
      | _ \<Rightarrow> None)"

text \<open>The two \<^verbatim>\<open>if\<close> statements under \<^verbatim>\<open>if (period)\<close>, in their order.\<close>

definition applyPeriod :: "string \<Rightarrow> nat \<Rightarrow> nat" where
  "applyPeriod period hour =
     (let hour1 = (if toUpperCase period = ''PM'' \<and> hour \<noteq> 12 then hour + 12 else hour)
      in if toUpperCase period = ''AM'' \<and> hour1 = 12 then 0 else hour1)"

fun sanitizeTime :: "jsval \<Rightarrow> string option" where
  "sanitizeTime (Str timeStr) =
     (if timeStr = [] then None
      else case timePattern_match (trim timeStr) of
        None \<Rightarrow> None
      | Some (hour, minute, second, period) \<Rightarrow>
          let hour' = (case period of
                         Some p \<Rightarrow> applyPeriod p (parseDigits hour)
                       | None \<Rightarrow> parseDigits hour)
          in Some (padStart2 (toDecimal hour') @ '':'' @ padStart2 (toDecimal (parseDigits minute))))"
| "sanitizeTime v = None"

fun convertTimeFormat :: "jsval \<Rightarrow> string option" where
  "convertTimeFormat (Str timeStr) =
     (if timeStr = [] then None
      else if length timeStr = 4 \<and> list_all isDigit timeStr
        then Some (take 2 timeStr @ '':'' @ drop 2 timeStr)
      else sanitizeTime (Str timeStr))"
| "convertTimeFormat v = None"

section \<open>The Date object of the runtime\<close>

text \<open>
  A \<^verbatim>\<open>Date\<close> is its time value, the milliseconds since 1 January 1970. The services
  read dates through the local-time accessors; the model takes the local zone to be the
  one without offset, so that local fields are the fields of the time value itself.
  Comparing two dates with \<^verbatim>\<open><=\<close> compares the time values.
\<close>

type_synonym date = int

definition msPerDay :: int where
  "msPerDay = 86400000"

definition dayNumber :: "date \<Rightarrow> int" where
  "dayNumber t = t div msPerDay"

text \<open>\<^verbatim>\<open>getDay()\<close>: 0 is Sunday, 6 is Saturday; day 0 was a Thursday.\<close>

definition getDay :: "date \<Rightarrow> int" where
  "getDay t = (dayNumber t + 4) mod 7"

text \<open>
  The Gregorian calendar of a day number, with the year taken to start on 1 March: the
  400-year cycle, the century in it (at most 3), the 4-year cycle, the year in it (at
  most 3) and the day of that year; the month and the day of the month come from the day
  of the year.
\<close>

definition dayOfEra :: "date \<Rightarrow> int" where
  "dayOfEra t = (dayNumber t + 719468) mod 146097"

definition centuryOfEra :: "date \<Rightarrow> int" where
  "centuryOfEra t = min 3 (dayOfEra t div 36524)"

definition dayOfCentury :: "date \<Rightarrow> int" where
  "dayOfCentury t = dayOfEra t - 36524 * centuryOfEra t"

definition yearOfCycle :: "date \<Rightarrow> int" where
  "yearOfCycle t = min 3 ((dayOfCentury t mod 1461) div 365)"

definition dayOfMarchYear :: "date \<Rightarrow> int" where
  "dayOfMarchYear t = dayOfCentury t mod 1461 - 365 * yearOfCycle t"

definition marchMonth :: "date \<Rightarrow> int" where
  "marchMonth t = (5 * dayOfMarchYear t + 2) div 153"

definition marchYear :: "date \<Rightarrow> int" where
  "marchYear t =
     400 * ((dayNumber t + 719468) div 146097) + 100 * centuryOfEra t
       + 4 * (dayOfCentury t div 1461) + yearOfCycle t"

text \<open>\<^verbatim>\<open>getMonth()\<close>: 0 is January.\<close>

definition getMonth :: "date \<Rightarrow> int" where
  "getMonth t = (if marchMonth t < 10 then marchMonth t + 2 else marchMonth t - 10)"

definition getDate :: "date \<Rightarrow> int" where
  "getDate t = dayOfMarchYear t - (153 * marchMonth t + 2) div 5 + 1"

definition getFullYear :: "date \<Rightarrow> int" where
  "getFullYear t = (if getMonth t \<le> 1 then marchYear t + 1 else marchYear t)"

text \<open>
  \<^verbatim>\<open>new Date(year, monthIndex, day)\<close>: midnight of that day; a year from 0 to 99
  means 1900 plus the year, and a month index beyond 0..11 carries into the year.
\<close>

definition newDate :: "int \<Rightarrow> int \<Rightarrow> int \<Rightarrow> date" where
  "newDate year monthIndex day =
     (let y0 = (if 0 \<le> year \<and> year \<le> 99 then 1900 + year else year) + monthIndex div 12;
          m = monthIndex mod 12 + 1;
          y = (if m \<le> 2 then y0 - 1 else y0);
          yoe = y mod 400;
          doy = (153 * (if m > 2 then m - 3 else m + 9) + 2) div 5;
          doe = yoe * 365 + yoe div 4 - yoe div 100 + doy
      in ((y div 400) * 146097 + doe - 719468 + (day - 1)) * msPerDay)"

text \<open>
  \<^verbatim>\<open>date.setDate(date.getDate() + n)\<close>: the day of the month moves by \<open>n\<close>, carrying
  into month and year, and the time of day stays.
\<close>

definition addDays :: "date \<Rightarrow> int \<Rightarrow> date" where
  "addDays t n = t + n * msPerDay"

text \<open>The remainder \<^verbatim>\<open>a % b\<close> has the sign of \<open>a\<close>.\<close>

definition js_rem :: "int \<Rightarrow> int \<Rightarrow> int" where
  "js_rem a b = sgn a * (\<bar>a\<bar> mod \<bar>b\<bar>)"

text \<open>\<^verbatim>\<open>n.toString()\<close> for an integer.\<close>

definition intToString :: "int \<Rightarrow> string" where
  "intToString i = (if i < 0 then CHR ''-'' # toDecimal (nat (- i)) else toDecimal (nat i))"

section \<open>courseService: the schedule feed\<close>

text \<open>\<^verbatim>\<open>String(v)\<close>, as a template literal and \<^verbatim>\<open>+\<close> with a string apply it.\<close>

fun jsToString :: "jsval \<Rightarrow> string" where
  "jsToString Undefined = ''undefined''"
| "jsToString Null = ''null''"
| "jsToString (Bool b) = (if b then ''true'' else ''false'')"
| "jsToString (Num n) = intToString (sint n)"
| "jsToString (Str s) = s"

text \<open>
  \<^verbatim>\<open>parseInt(v)\<close> without a radix: the string form of \<open>v\<close>, leading white space
  dropped, an optional sign, the prefix \<^verbatim>\<open>0x\<close> for base 16, then the longest run of
  digits; \<open>None\<close> is \<^verbatim>\<open>NaN\<close>.
\<close>

definition hexVal :: "char \<Rightarrow> nat option" where
  "hexVal c = map_of (zip ''0123456789abcdefABCDEF''
                 [0, 1, 2, 3, 4, 5, 6, 7, 8, 9, 10, 11, 12, 13, 14, 15, 10, 11, 12, 13, 14, 15]) c"

definition parseHexDigits :: "string \<Rightarrow> nat" where
  "parseHexDigits s = foldl (\<lambda>acc c. 16 * acc + (case hexVal c of Some d \<Rightarrow> d | None \<Rightarrow> 0)) 0 s"

definition parseInt :: "jsval \<Rightarrow> int option" where
  "parseInt v =
     (let s = dropWhile isWhitespace (jsToString v);
          neg = (case s of c # r \<Rightarrow> c = CHR ''-'' | [] \<Rightarrow> False);
          s1 = (case s of c # r \<Rightarrow> if c = CHR ''-'' \<or> c = CHR ''+'' then r else s | [] \<Rightarrow> s);
          hex = prefixCI ''0x'' s1;
          ds = (if hex then takeWhile (\<lambda>c. hexVal c \<noteq> None) (drop 2 s1) else takeWhile isDigit s1);
          n = (if hex then int (parseHexDigits ds) else int (parseDigits ds))
      in if ds = [] then None else Some (if neg then - n else n))"

text \<open>\<^verbatim>\<open>parseInt(x || 0)\<close>, as the counters of a section are read.\<close>

definition parseCount :: "jsval \<Rightarrow> int option" where
  "parseCount x = parseInt (js_or x (Num 0))"

text \<open>The class \<^verbatim>\<open>[\u0000-\u001F\u007F-\u009F]\<close>.\<close>

definition isControl :: "char \<Rightarrow> bool" where
  "isControl c = ((of_char c :: nat) \<le> 0x1F \<or> (0x7F \<le> (of_char c :: nat) \<and> (of_char c :: nat) \<le> 0x9F))"

fun sanitizeString :: "jsval \<Rightarrow> string" where
  "sanitizeString (Str str) =
     (if str = [] then [] else take 500 (filter (\<lambda>c. \<not> isControl c) (trim str)))"
| "sanitizeString v = []"

text \<open>
  \<^verbatim>\<open>typeMap\<close>; the lookup key is the upper-case form of the code. The keys hold ASCII
  capitals only.
\<close>

definition typeMap :: "(string \<times> string) list" where
  "typeMap =
    [(''LEC'', ''Lecture''), (''LECTURE'', ''Lecture''),
     (''LAB'', ''Laboratory''), (''LABORATORY'', ''Laboratory''),
     (''TUT'', ''Tutorial''), (''TUTORIAL'', ''Tutorial''),
     (''SEM'', ''Seminar''), (''SEMINAR'', ''Seminar''),
     (''WOR'', ''Workshop''), (''WORKSHOP'', ''Workshop'')]"

fun normalizeClassType :: "jsval \<Rightarrow> string" where
  "normalizeClassType (Str type) =
     (if type = [] then ''Lecture''
      else case map_of typeMap (toUpperCase type) of Some t \<Rightarrow> t | None \<Rightarrow> ''Lecture'')"
| "normalizeClassType v = ''Lecture''"

text \<open>
  One row of the schedule feed. Every field is a raw value; \<open>instructors\<close> is the list of
  first and last names (empty when the row has none); the field \<^verbatim>\<open>section\<close> is
  \<open>rawSection\<close> here.
\<close>

record rawItem =
  rawSection :: jsval
  componentCode :: jsval
  instructors :: "(jsval \<times> jsval) list"
  locationCode :: jsval
  classCapacity :: jsval
  enrollmentTotal :: jsval
  waitlistTotal :: jsval
  modays :: jsval
  tuesdays :: jsval
  wednesdays :: jsval
  thursdays :: jsval
  fridays :: jsval
  saturdays :: jsval
  sundays :: jsval
  classStartTime :: jsval
  classEndTime :: jsval

text \<open>
  The canonical model. The fields of a meeting, a section and a course carry the prefixes
  \<open>m\<close>, \<open>s\<close> and \<open>c\<close>, as several of them share a name in the source. A stored meeting
  has both its times.
\<close>

record meeting =
  mDays :: "nat list"
  mStartTime :: string
  mEndTime :: string
  mLocation :: string
  mType :: string

record sectionRec =
  sSection :: string
  sType :: string
  sInstructor :: string
  sLocation :: string
  sSchedule :: "meeting list"
  sCapacity :: "int option"
  sEnrolled :: "int option"
  sWaitlist :: "int option"

record course =
  cCode :: string
  cTitle :: string
  cCredits :: string
  cSections :: "sectionRec list"
  cDescription :: string
  cPrerequisites :: string
  cDepartment :: string

definition extractDaysFromSchedule :: "rawItem \<Rightarrow> nat list" where
  "extractDaysFromSchedule item =
     (if modays item = Str ''Y'' then [0] else [])
     @ (if tuesdays item = Str ''Y'' then [1] else [])
     @ (if wednesdays item = Str ''Y'' then [2] else [])
     @ (if thursdays item = Str ''Y'' then [3] else [])
     @ (if fridays item = Str ''Y'' then [4] else [])
     @ (if saturdays item = Str ''Y'' then [5] else [])
     @ (if sundays item = Str ''Y'' then [6] else [])"

text \<open>\<^verbatim>\<open>`${item.section}-${item.componentCode}`\<close>\<close>

definition sectionKey :: "rawItem \<Rightarrow> string" where
  "sectionKey item = jsToString (rawSection item) @ ''-'' @ jsToString (componentCode item)"

text \<open>
  \<^verbatim>\<open>item.instructors?.[0]?.firstName + ' ' + item.instructors?.[0]?.lastName || ''\<close>:
  the sum is a string with a space in it, so the alternative is never taken.
\<close>

definition instructorName :: "rawItem \<Rightarrow> jsval" where
  "instructorName item =
     (let firstName = (case instructors item of [] \<Rightarrow> Undefined | (f, l) # _ \<Rightarrow> f);
          lastName = (case instructors item of [] \<Rightarrow> Undefined | (f, l) # _ \<Rightarrow> l)
      in js_or (Str (jsToString firstName @ '' '' @ jsToString lastName)) (Str []))"

text \<open>The section object stored for a key that the map does not have yet.\<close>

definition newSection :: "rawItem \<Rightarrow> sectionRec" where
  "newSection item =
     \<lparr> sSection = sanitizeString (rawSection item),
       sType = normalizeClassType (componentCode item),
       sInstructor = sanitizeString (instructorName item),
       sLocation = sanitizeString (js_or (locationCode item) (Str [])),
       sSchedule = [],
       sCapacity = parseCount (classCapacity item),
       sEnrolled = parseCount (enrollmentTotal item),
       sWaitlist = parseCount (waitlistTotal item) \<rparr>"

text \<open>
  The meeting a row pushes onto its section, if it pushes one: some day flag is truthy,
  the day list is not empty and both converted times are truthy.
\<close>

definition rowMeeting :: "rawItem \<Rightarrow> meeting option" where
  "rowMeeting item =
     (if truthy (modays item) \<or> truthy (tuesdays item) \<or> truthy (wednesdays item)
         \<or> truthy (thursdays item) \<or> truthy (fridays item) \<or> truthy (saturdays item)
         \<or> truthy (sundays item)
      then
        (case (convertTimeFormat (classStartTime item), convertTimeFormat (classEndTime item)) of
           (Some startTime, Some endTime) \<Rightarrow>
             if extractDaysFromSchedule item \<noteq> [] \<and> startTime \<noteq> [] \<and> endTime \<noteq> []
             then Some \<lparr> mDays = extractDaysFromSchedule item,
                         mStartTime = startTime,
                         mEndTime = endTime,
                         mLocation = sanitizeString (js_or (locationCode item) (Str [])),
                         mType = normalizeClassType (componentCode item) \<rparr>
             else None
         | _ \<Rightarrow> None)
      else None)"

text \<open>
  The body of \<^verbatim>\<open>scheduleData.forEach\<close>. \<^verbatim>\<open>sectionsMap\<close> is a \<^verbatim>\<open>Map\<close>: it keeps
  its keys in the order of their first insertion, so it is a list of pairs; a new key goes
  to the end, and the push changes the section stored under the key.
\<close>

definition processItem :: "(string \<times> sectionRec) list \<Rightarrow> rawItem \<Rightarrow> (string \<times> sectionRec) list" where
  "processItem sectionsMap item =
     (let sectionsMap1 =
            (if map_of sectionsMap (sectionKey item) = None
             then sectionsMap @ [(sectionKey item, newSection item)]
             else sectionsMap)
      in case rowMeeting item of
           Some meeting \<Rightarrow>
             map (\<lambda>(k, s). if k = sectionKey item
                            then (k, s\<lparr>sSchedule := sSchedule s @ [meeting]\<rparr>) else (k, s))
               sectionsMap1
         | None \<Rightarrow> sectionsMap1)"

definition sectionsMapOf :: "rawItem list \<Rightarrow> (string \<times> sectionRec) list" where
  "sectionsMapOf scheduleData = foldl processItem [] scheduleData"

definition processScheduleResponse :: "rawItem list \<Rightarrow> sectionRec list" where
  "processScheduleResponse scheduleData =
     filter (\<lambda>s. sSchedule s \<noteq> []) (map snd (sectionsMapOf scheduleData))"

section \<open>scheduleService\<close>

text \<open>
  An entry of \<^verbatim>\<open>courseData\<close> and an event of the schedule; their fields carry the
  prefixes \<open>i\<close> and \<open>e\<close>. The number of credits is carried as the text that a template
  literal makes of it. \<open>eDay\<close> is the weekday index the event came from.
\<close>

record courseInfo =
  iCode :: string
  iSection :: "string option"
  iTerm :: "string option"

record scheduleEvent =
  eSubject :: string
  eDay :: int
  eStartTime :: string
  eEndTime :: string
  eLocation :: string
  eDescription :: string
  eType :: string
  eInstructor :: string
  eSection :: string
  eCredits :: string
  eDepartment :: string

text \<open>\<^verbatim>\<open>a || b\<close> on strings.\<close>

definition orElse :: "string \<Rightarrow> string \<Rightarrow> string" where
  "orElse a b = (if a \<noteq> [] then a else b)"

definition getCurrentTerm :: "date \<Rightarrow> string" where
  "getCurrentTerm now =
     (let year = getFullYear now; month = getMonth now
      in if month \<ge> 8 then intToString year @ ''2''
         else if month \<ge> 4 then intToString year @ ''4''
         else intToString year @ ''1'')"

definition convertToScheduleEvents :: "course \<Rightarrow> sectionRec \<Rightarrow> scheduleEvent list" where
  "convertToScheduleEvents courseDetails sec =
     (if sSchedule sec = [] then []
      else concat (map (\<lambda>meeting. map (\<lambda>dayNum.
        \<lparr> eSubject = cCode courseDetails @ '' - '' @ cTitle courseDetails,
          eDay = int dayNum,
          eStartTime = mStartTime meeting,
          eEndTime = mEndTime meeting,
          eLocation = orElse (mLocation meeting) (orElse (sLocation sec) ''TBD''),
          eDescription = cCode courseDetails @ '' | '' @ sType sec @ '' | '' @ cCredits courseDetails
             @ '' Credits | Instructor: '' @ orElse (sInstructor sec) ''TBD'',
          eType = sType sec,
          eInstructor = orElse (sInstructor sec) ''TBD'',
          eSection = sSection sec,
          eCredits = cCredits courseDetails,
          eDepartment = cDepartment courseDetails \<rparr>) (mDays meeting)) (sSchedule sec)))"

text \<open>
  What the code throws. \<open>TypeError\<close> is the runtime's own, raised when a field of
  \<^verbatim>\<open>null\<close> or \<^verbatim>\<open>undefined\<close> is read.
\<close>

datatype error = Error string | TypeError

text \<open>
  \<^verbatim>\<open>courseService.getCourseDetails\<close> asks the remote catalogue and keeps a cache: it
  is a parameter here, a function of the state of that collaborator, which returns the
  course, \<^verbatim>\<open>null\<close> (\<open>Inr None\<close>) or throws (\<open>Inl\<close>), and the new state.
\<close>

type_synonym 'st courseClient = "'st \<Rightarrow> string \<Rightarrow> string \<Rightarrow> (error + course option) \<times> 'st"

text \<open>The body of the \<^verbatim>\<open>try\<close> block of \<^verbatim>\<open>getCourseScheduleData\<close>.\<close>

definition courseScheduleTry ::
  "'st courseClient \<Rightarrow> 'st \<Rightarrow> string \<Rightarrow> string option \<Rightarrow> string
     \<Rightarrow> (error + scheduleEvent list) \<times> 'st" where
  "courseScheduleTry getCourseDetails st code sec term =
     (case getCourseDetails st code term of
        (Inl e, st') \<Rightarrow> (Inl e, st')
      | (Inr None, st') \<Rightarrow>
          (Inl (Error (''Course '' @ code @ '' not found for term '' @ term)), st')
      | (Inr (Some courseDetails), st') \<Rightarrow>
          (let targetSection =
                 (case sec of
                    Some s \<Rightarrow>
                      if s \<noteq> [] then find (\<lambda>x. sSection x = s) (cSections courseDetails)
                      else (case cSections courseDetails of [] \<Rightarrow> None | x # _ \<Rightarrow> Some x)
                  | None \<Rightarrow> (case cSections courseDetails of [] \<Rightarrow> None | x # _ \<Rightarrow> Some x))
           in case targetSection of
                None \<Rightarrow>
                  (Inl (Error (''Section '' @ orElse (case sec of Some s \<Rightarrow> s | None \<Rightarrow> []) ''default''
                          @ '' not found for course '' @ code)), st')
              | Some t \<Rightarrow> (Inr (convertToScheduleEvents courseDetails t), st')))"

text \<open>
  \<^verbatim>\<open>getCourseScheduleData\<close>: an entry that is \<^verbatim>\<open>null\<close> or \<^verbatim>\<open>undefined\<close>
  (\<open>None\<close>) makes the destructuring throw, before the \<^verbatim>\<open>try\<close>; every error inside
  the \<^verbatim>\<open>try\<close> is caught and gives the empty list.
\<close>

definition getCourseScheduleData ::
  "'st courseClient \<Rightarrow> date \<Rightarrow> 'st \<Rightarrow> courseInfo option \<Rightarrow> (error + scheduleEvent list) \<times> 'st" where
  "getCourseScheduleData getCourseDetails now st courseInfo =
     (case courseInfo of
        None \<Rightarrow> (Inl TypeError, st)
      | Some ci \<Rightarrow>
          (let term = (case iTerm ci of Some t \<Rightarrow> t | None \<Rightarrow> getCurrentTerm now)
           in case courseScheduleTry getCourseDetails st (iCode ci) (iSection ci) term of
                (Inl e, st') \<Rightarrow> (Inr [], st')
              | (Inr events, st') \<Rightarrow> (Inr events, st')))"

text \<open>
  The loop of \<^verbatim>\<open>generateSchedule\<close>, with the array \<^verbatim>\<open>scheduleEvents\<close> and the
  state of the collaborator passed along. The \<^verbatim>\<open>catch\<close> writes a message that reads
  \<^verbatim>\<open>courseInfo.code\<close> and goes on with the next entry; for an entry that is
  \<^verbatim>\<open>null\<close> or \<^verbatim>\<open>undefined\<close> this read throws in its turn, and the function
  rejects.
\<close>

fun generateScheduleLoop ::
  "'st courseClient \<Rightarrow> date \<Rightarrow> scheduleEvent list \<Rightarrow> 'st \<Rightarrow> courseInfo option list
     \<Rightarrow> (error + scheduleEvent list) \<times> 'st" where
  "generateScheduleLoop getCourseDetails now scheduleEvents st [] = (Inr scheduleEvents, st)"
| "generateScheduleLoop getCourseDetails now scheduleEvents st (courseInfo # rest) =
     (case getCourseScheduleData getCourseDetails now st courseInfo of
        (Inr courseDetails, st') \<Rightarrow>
          generateScheduleLoop getCourseDetails now
            (if courseDetails \<noteq> [] then scheduleEvents @ courseDetails else scheduleEvents) st' rest
      | (Inl e, st') \<Rightarrow>
          (case courseInfo of
             None \<Rightarrow> (Inl TypeError, st')
           | Some ci \<Rightarrow> generateScheduleLoop getCourseDetails now scheduleEvents st' rest))"

definition generateSchedule ::
  "'st courseClient \<Rightarrow> date \<Rightarrow> 'st \<Rightarrow> courseInfo option list
     \<Rightarrow> (error + scheduleEvent list) \<times> 'st" where
  "generateSchedule getCourseDetails now st courseData =
     generateScheduleLoop getCourseDetails now [] st courseData"

subsection \<open>The semester window\<close>

text \<open>
  The fields of \<^verbatim>\<open>semesterInfo\<close> come as received: through the route they are
  values of the JSON body, from a caller in the program they may be \<^verbatim>\<open>Date\<close>
  objects. An absent field is \<open>Raw Undefined\<close>.
\<close>

datatype dateVal = DateObj date | Raw jsval

fun truthyVal :: "dateVal \<Rightarrow> bool" where
  "truthyVal (DateObj t) = True"
| "truthyVal (Raw v) = truthy v"

text \<open>
  A number: not-a-number, a finite value or an infinity. The runtime's own conversions of
  a string are parameters: \<open>parseDate\<close> is \<^verbatim>\<open>Date.parse\<close>, whose result is a time
  value or \<open>None\<close> for not-a-number and which the standard fixes for the ISO format only;
  \<open>toNumber\<close> is \<^verbatim>\<open>Number(s)\<close> on a string.
\<close>

datatype jsnum = NaN | Fin rat | PosInf | NegInf

record runtime =
  parseDate :: "string \<Rightarrow> date option"
  toNumber :: "string \<Rightarrow> jsnum"

text \<open>A time value outside of 8.64e15 milliseconds around the epoch is no date.\<close>

definition timeClip :: "int \<Rightarrow> date option" where
  "timeClip t = (if \<bar>t\<bar> \<le> 8640000000000000 then Some t else None)"

text \<open>\<^verbatim>\<open>new Date(v)\<close>; \<open>None\<close> is the invalid date.\<close>

fun newDateOf :: "runtime \<Rightarrow> dateVal \<Rightarrow> date option" where
  "newDateOf rt (DateObj t) = Some t"
| "newDateOf rt (Raw (Str s)) = parseDate rt s"
| "newDateOf rt (Raw (Num n)) = timeClip (sint n)"
| "newDateOf rt (Raw (Bool b)) = Some (if b then 1 else 0)"
| "newDateOf rt (Raw Null) = Some 0"
| "newDateOf rt (Raw Undefined) = None"

text \<open>
  The number a value is compared as, when the other side of \<^verbatim>\<open>>=\<close> or
  \<^verbatim>\<open><=\<close> is a date: a date gives its time value, a string is converted and is
  not-a-number unless it is a numeric literal.
\<close>

fun toNumeric :: "runtime \<Rightarrow> dateVal \<Rightarrow> jsnum" where
  "toNumeric rt (DateObj t) = Fin (of_int t)"
| "toNumeric rt (Raw (Str s)) = toNumber rt s"
| "toNumeric rt (Raw (Num n)) = Fin (of_int (sint n))"
| "toNumeric rt (Raw (Bool b)) = Fin (if b then 1 else 0)"
| "toNumeric rt (Raw Null) = Fin 0"
| "toNumeric rt (Raw Undefined) = NaN"

text \<open>\<^verbatim>\<open>date >= x\<close> and \<^verbatim>\<open>date <= x\<close>: false whenever a side is not-a-number.\<close>

fun dateGe :: "date \<Rightarrow> jsnum \<Rightarrow> bool" where
  "dateGe d NaN = False"
| "dateGe d (Fin r) = (of_int d \<ge> r)"
| "dateGe d PosInf = False"
| "dateGe d NegInf = True"

fun dateLe :: "date \<Rightarrow> jsnum \<Rightarrow> bool" where
  "dateLe d NaN = False"
| "dateLe d (Fin r) = (of_int d \<le> r)"
| "dateLe d PosInf = True"
| "dateLe d NegInf = False"

text \<open>
  A break period; \<open>finish\<close> is the field \<^verbatim>\<open>end\<close>. The field \<^verbatim>\<open>breaks\<close> is
  absent, or a value that cannot be spread (\<^verbatim>\<open>null\<close>, a number, a boolean, an object
  that is no array), or an array; an element of the array is \<^verbatim>\<open>null\<close> or
  \<^verbatim>\<open>undefined\<close> (\<open>None\<close>) or has the two fields, which are \<open>Raw Undefined\<close> where
  the element lacks them (so for an element that is a number, a string or a boolean; a
  string in the place of the array spreads into its characters and is an array of such
  elements). \<open>termCode\<close> is the field \<^verbatim>\<open>term\<close>.
\<close>

record breakPeriod =
  start :: dateVal
  finish :: dateVal

datatype breaksVal = NoBreaks | NotIterable | Breaks "breakPeriod option list"

record semesterInfo =
  startDate :: dateVal
  endDate :: dateVal
  termCode :: "string option"
  breaks :: breaksVal

text \<open>The result is the pair of the two dates, each of which may be the invalid date.\<close>

definition getSemesterDates :: "runtime \<Rightarrow> date \<Rightarrow> semesterInfo \<Rightarrow> date option \<times> date option" where
  "getSemesterDates rt now semInfo =
     (let currentYear = getFullYear now
      in if truthyVal (startDate semInfo) \<and> truthyVal (endDate semInfo)
         then (newDateOf rt (startDate semInfo), newDateOf rt (endDate semInfo))
         else
           (let term = (case termCode semInfo of
                          Some t \<Rightarrow> if t \<noteq> [] then t else getCurrentTerm now
                        | None \<Rightarrow> getCurrentTerm now);
                year = (case parseInt (Str (take 4 term)) of
                          Some y \<Rightarrow> if y \<noteq> 0 then y else currentYear
                        | None \<Rightarrow> currentYear);
                semester = orElse (drop 4 term) ''2''
            in if semester = ''1'' then (Some (newDate year 8 1), Some (newDate year 11 31))
               else if semester = ''2'' then (Some (newDate year 0 1), Some (newDate year 3 30))
               else if semester = ''4'' then (Some (newDate year 4 1), Some (newDate year 7 31))
               else (Some (newDate year 0 1), Some (newDate year 11 31))))"

definition getFirstWeekdayOccurrence :: "date \<Rightarrow> int \<Rightarrow> date" where
  "getFirstWeekdayOccurrence startD targetDay =
     (let daysAhead = js_rem (targetDay - getDay startD + 7) 7
      in addDays startD daysAhead)"

definition defaultBreaks :: "breakPeriod option list" where
  "defaultBreaks =
     [Some \<lparr> start = DateObj (newDate 2024 10 25), finish = DateObj (newDate 2024 10 29) \<rparr>,
      Some \<lparr> start = DateObj (newDate 2024 11 23), finish = DateObj (newDate 2024 11 31) \<rparr>,
      Some \<lparr> start = DateObj (newDate 2025 2 1), finish = DateObj (newDate 2025 2 7) \<rparr>,
      Some \<lparr> start = DateObj (newDate 2025 9 14), finish = DateObj (newDate 2025 9 18) \<rparr>]"

text \<open>
  \<^verbatim>\<open>allBreaks.some(...)\<close>: the elements in their order up to the first that holds the
  date; reading a field of an element that is \<^verbatim>\<open>null\<close> or \<^verbatim>\<open>undefined\<close>
  throws.
\<close>

fun someBreak :: "runtime \<Rightarrow> date \<Rightarrow> breakPeriod option list \<Rightarrow> error + bool" where
  "someBreak rt d [] = Inr False"
| "someBreak rt d (None # rest) = Inl TypeError"
| "someBreak rt d (Some breakPeriod # rest) =
     (if dateGe d (toNumeric rt (start breakPeriod)) \<and> dateLe d (toNumeric rt (finish breakPeriod))
      then Inr True else someBreak rt d rest)"

text \<open>
  \<^verbatim>\<open>customBreaks = []\<close> is the default of an absent argument; the spread of a value
  that is not iterable throws, before any range is looked at.
\<close>

definition isBreakWeek :: "runtime \<Rightarrow> date \<Rightarrow> breaksVal \<Rightarrow> error + bool" where
  "isBreakWeek rt d customBreaks =
     (case customBreaks of
        NotIterable \<Rightarrow> Inl TypeError
      | NoBreaks \<Rightarrow> someBreak rt d (defaultBreaks @ [])
      | Breaks bs \<Rightarrow> someBreak rt d (defaultBreaks @ bs))"

definition formatDate :: "date \<Rightarrow> string" where
  "formatDate d =
     (let month = padStart2 (intToString (getMonth d + 1));
          day = padStart2 (intToString (getDate d));
          year = getFullYear d
      in month @ ''/'' @ day @ ''/'' @ intToString year)"

lemma length_dropWhile_less: "length (dropWhile P xs) < Suc (length xs)"
  by (simp add: length_dropWhile_le less_Suc_eq_le)

text \<open>\<^verbatim>\<open>replace(/\s+/g, ' ')\<close>: every run of white space becomes one space.\<close>

function collapseWhitespace :: "string \<Rightarrow> string" where
  "collapseWhitespace [] = []"
| "collapseWhitespace (c # cs) =
     (if isWhitespace c then CHR '' '' # collapseWhitespace (dropWhile isWhitespace cs)
      else c # collapseWhitespace cs)"
  by pat_completeness auto
termination
  by (relation "measure length") (auto simp: length_dropWhile_less)

fun sanitizeCsvField :: "jsval \<Rightarrow> string" where
  "sanitizeCsvField (Str text) =
     (if text = [] then []
      else take 255 (collapseWhitespace
             (map (\<lambda>c. if c \<in> set [CHR 0x0D, CHR 0x0A, CHR 0x09] then CHR '' '' else c) (trim text))))"
| "sanitizeCsvField v = []"

subsection \<open>The CSV\<close>

definition headers :: "string list" where
  "headers = [''Subject'', ''Start Date'', ''Start Time'', ''End Date'', ''End Time'',
              ''All Day Event'', ''Description'', ''Location'', ''Private'']"

text \<open>
  An element of the array \<^verbatim>\<open>events\<close>: an object with one property for each header,
  in the order the literal writes them.
\<close>

type_synonym csvEvent = "(string \<times> string) list"

definition csvEventOf :: "scheduleEvent \<Rightarrow> date \<Rightarrow> csvEvent" where
  "csvEventOf course currentDate =
     [(''Subject'', sanitizeCsvField (Str (eSubject course))),
      (''Start Date'', formatDate currentDate),
      (''Start Time'', eStartTime course),
      (''End Date'', formatDate currentDate),
      (''End Time'', eEndTime course),
      (''All Day Event'', ''False''),
      (''Description'', sanitizeCsvField (Str (eDescription course))),
      (''Location'', sanitizeCsvField (Str (eLocation course))),
      (''Private'', ''False'')]"

text \<open>
  The \<^verbatim>\<open>while\<close> loop over the weeks of one event; \<open>events\<close> is the array so far. The
  date moves on by seven days whether or not the week was pushed. An error thrown by
  \<open>isBreakWeek\<close> ends the loop and the whole call.
\<close>

function weeklyLoop ::
  "runtime \<Rightarrow> scheduleEvent \<Rightarrow> breaksVal \<Rightarrow> date \<Rightarrow> date \<Rightarrow> csvEvent list
     \<Rightarrow> error + csvEvent list" where
  "weeklyLoop rt course customBreaks endD currentDate events =
     (if currentDate \<le> endD
      then (case isBreakWeek rt currentDate customBreaks of
              Inl e \<Rightarrow> Inl e
            | Inr isBreak \<Rightarrow>
                weeklyLoop rt course customBreaks endD (addDays currentDate 7)
                  (if \<not> isBreak then events @ [csvEventOf course currentDate] else events))
      else Inr events)"
  by pat_completeness auto
termination
  by (relation "measure (\<lambda>(rt, course, customBreaks, endD, currentDate, events).
                           nat (endD - currentDate + 1))")
     (auto simp: addDays_def msPerDay_def)

text \<open>
  The body of \<^verbatim>\<open>scheduleData.forEach\<close>. With an invalid start date the first
  occurrence is invalid, with an invalid end date the comparison of the loop is false: in
  both cases the loop does not run.
\<close>

definition eventRows ::
  "runtime \<Rightarrow> date option \<Rightarrow> date option \<Rightarrow> breaksVal \<Rightarrow> csvEvent list \<Rightarrow> scheduleEvent
     \<Rightarrow> error + csvEvent list" where
  "eventRows rt startD endD customBreaks events course =
     (case (startD, endD) of
        (Some s, Some e) \<Rightarrow>
          (let firstOccurrence = getFirstWeekdayOccurrence s (eDay course)
           in weeklyLoop rt course customBreaks e firstOccurrence events)
      | _ \<Rightarrow> Inr events)"

text \<open>\<^verbatim>\<open>scheduleData.forEach\<close>: the first error ends it.\<close>

fun forEachEvent ::
  "runtime \<Rightarrow> date option \<Rightarrow> date option \<Rightarrow> breaksVal \<Rightarrow> csvEvent list \<Rightarrow> scheduleEvent list
     \<Rightarrow> error + csvEvent list" where
  "forEachEvent rt startD endD customBreaks events [] = Inr events"
| "forEachEvent rt startD endD customBreaks events (course # rest) =
     (case eventRows rt startD endD customBreaks events course of
        Inl e \<Rightarrow> Inl e
      | Inr events' \<Rightarrow> forEachEvent rt startD endD customBreaks events' rest)"

text \<open>\<^verbatim>\<open>xs.join(sep)\<close>\<close>

fun join :: "string \<Rightarrow> string list \<Rightarrow> string" where
  "join sep [] = []"
| "join sep [x] = x"
| "join sep (x # y # ys) = x @ sep @ join sep (y # ys)"

text \<open>\<^verbatim>\<open>replace(/"/g, '""')\<close>\<close>

definition doubleQuotes :: "string \<Rightarrow> string" where
  "doubleQuotes s = concat (map (\<lambda>c. if c = CHR 0x22 then [CHR 0x22, CHR 0x22] else [c]) s)"

text \<open>
  \<^verbatim>\<open>event[header].toString()\<close>, quoted. A header that the object lacks reads
  \<^verbatim>\<open>undefined\<close>, and the call on it throws.
\<close>

definition quoteField :: "csvEvent \<Rightarrow> string \<Rightarrow> error + string" where
  "quoteField event header =
     (case map_of event header of
        None \<Rightarrow> Inl TypeError
      | Some v \<Rightarrow> Inr ([CHR 0x22] @ doubleQuotes v @ [CHR 0x22]))"

text \<open>A \<^verbatim>\<open>map\<close> whose callback may throw: the first error ends it.\<close>

fun mapE :: "('a \<Rightarrow> error + 'b) \<Rightarrow> 'a list \<Rightarrow> error + 'b list" where
  "mapE f [] = Inr []"
| "mapE f (x # xs) =
     (case f x of
        Inl e \<Rightarrow> Inl e
      | Inr y \<Rightarrow> (case mapE f xs of Inl e \<Rightarrow> Inl e | Inr ys \<Rightarrow> Inr (y # ys)))"

definition csvLine :: "csvEvent \<Rightarrow> error + string" where
  "csvLine event =
     (case mapE (quoteField event) headers of
        Inl e \<Rightarrow> Inl e
      | Inr cells \<Rightarrow> Inr (join '','' cells))"

text \<open>The array \<^verbatim>\<open>events\<close> of \<^verbatim>\<open>generateCSV\<close> after the loop over the events.\<close>

definition csvEvents ::
  "runtime \<Rightarrow> date \<Rightarrow> scheduleEvent list \<Rightarrow> semesterInfo \<Rightarrow> error + csvEvent list" where
  "csvEvents rt now scheduleData semInfo =
     (let (startD, endD) = getSemesterDates rt now semInfo
      in forEachEvent rt startD endD (breaks semInfo) [] scheduleData)"

definition generateCSV ::
  "runtime \<Rightarrow> date \<Rightarrow> scheduleEvent list \<Rightarrow> semesterInfo \<Rightarrow> error + string" where
  "generateCSV rt now scheduleData semInfo =
     (case csvEvents rt now scheduleData semInfo of
        Inl e \<Rightarrow> Inl e
      | Inr events \<Rightarrow>
          (case mapE csvLine events of
             Inl e \<Rightarrow> Inl e
           | Inr rows \<Rightarrow> Inr (join [CHR 0x0A] (join '','' headers # rows))))"

section \<open>Notions for stating the properties\<close>

text \<open>
  The shapes the specification names, as predicates on the parts of a string: an hour of
  one or two digits, two minute digits, optional seconds (a colon and two digits), white
  space, and an optional period \<^verbatim>\<open>AM\<close> or \<^verbatim>\<open>PM\<close> in any case. \<open>hour24\<close> is
  the conversion of the hour as the specification words it.
\<close>

definition hour24 :: "string \<Rightarrow> nat \<Rightarrow> nat" where
  "hour24 per h =
     (if toUpperCase per = ''AM'' then (if h = 12 then 0 else h)
      else if toUpperCase per = ''PM'' then (if h = 12 then 12 else h + 12)
      else h)"

definition secondsShape :: "string \<Rightarrow> bool" where
  "secondsShape secs = (secs = [] \<or> (length secs = 3 \<and> hd secs = CHR '':'' \<and> list_all isDigit (tl secs)))"

definition colonShape :: "string \<Rightarrow> string \<Rightarrow> string \<Rightarrow> string \<Rightarrow> string \<Rightarrow> bool" where
  "colonShape hs ms secs ws per =
     (list_all isDigit hs \<and> (length hs = 1 \<or> length hs = 2)
      \<and> list_all isDigit ms \<and> length ms = 2
      \<and> secondsShape secs
      \<and> list_all isWhitespace ws
      \<and> ((per = [] \<and> ws = []) \<or> toUpperCase per = ''AM'' \<or> toUpperCase per = ''PM''))"

text \<open>
  The dates the loop of \<open>generateCSV\<close> visits: from the first occurrence in steps of
  seven days while the date is not behind the end of the semester.
\<close>

function weeks :: "date \<Rightarrow> date \<Rightarrow> date list" where
  "weeks endD d = (if d \<le> endD then d # weeks endD (addDays d 7) else [])"
  by pat_completeness auto
termination
  by (relation "measure (\<lambda>(endD, d). nat (endD - d + 1))") (auto simp: addDays_def msPerDay_def)

declare weeks.simps [simp del]
declare weeklyLoop.simps [simp del]

text \<open>Inputs for the concrete checks: a row of the feed taught on Mondays, an event, a semester.\<close>

definition mondayRow :: rawItem where
  "mondayRow =
     \<lparr> rawSection = Str ''A'', componentCode = Str ''LEC'', instructors = [],
       locationCode = Str ''H 110'', classCapacity = Num 60, enrollmentTotal = Num 40,
       waitlistTotal = Num 0, modays = Str ''Y'', tuesdays = Str ''N'', wednesdays = Str ''N'',
       thursdays = Str ''N'', fridays = Str ''N'', saturdays = Str ''N'', sundays = Str ''N'',
       classStartTime = Str ''1145'', classEndTime = Str ''1300'' \<rparr>"

definition sampleEvent :: "int \<Rightarrow> scheduleEvent" where
  "sampleEvent d =
     \<lparr> eSubject = ''COMP 248 - Programming'', eDay = d, eStartTime = ''11:45'',
       eEndTime = ''13:00'', eLocation = ''H 110'',
       eDescription = ''COMP 248 | Lecture | 3 Credits | Instructor: TBD'', eType = ''Lecture'',
       eInstructor = ''TBD'', eSection = ''A'', eCredits = ''3'', eDepartment = ''COMP'' \<rparr>"

definition sampleSemester :: "date \<Rightarrow> date \<Rightarrow> breaksVal \<Rightarrow> semesterInfo" where
  "sampleSemester s e bs =
     \<lparr> startDate = DateObj s, endDate = DateObj e, termCode = None, breaks = bs \<rparr>"

text \<open>
  A semester as a JSON body gives it, the two dates as strings; and a runtime for the
  concrete checks, which stands for the real one on the strings used there: it reads a date
  of the form \<open>YYYY-MM-DD\<close> as midnight of that day, as the standard fixes it, and converts
  a string of digits to its number and a string with any other character to not-a-number.
\<close>

definition jsonSemester :: "string \<Rightarrow> string \<Rightarrow> breaksVal \<Rightarrow> semesterInfo" where
  "jsonSemester s e bs =
     \<lparr> startDate = Raw (Str s), endDate = Raw (Str e), termCode = None, breaks = bs \<rparr>"

definition isoDate :: "string \<Rightarrow> date option" where
  "isoDate s =
     (if length s = 10 \<and> list_all isDigit (take 4 s) \<and> s ! 4 = CHR ''-''
         \<and> list_all isDigit (take 2 (drop 5 s)) \<and> s ! 7 = CHR ''-''
         \<and> list_all isDigit (drop 8 s)
      then (let y = int (parseDigits (take 4 s));
                m = int (parseDigits (take 2 (drop 5 s)));
                d = int (parseDigits (drop 8 s));
                t = newDate (y + 400) (m - 1) d - 146097 * msPerDay
            in if 1 \<le> m \<and> m \<le> 12 \<and> 1 \<le> d \<and> getDate t = d then Some t else None)
      else None)"

definition digitsNumber :: "string \<Rightarrow> jsnum" where
  "digitsNumber s =
     (if s \<noteq> [] \<and> list_all isDigit s then Fin (of_nat (parseDigits s)) else NaN)"

definition sampleRuntime :: runtime where
  "sampleRuntime = \<lparr> parseDate = isoDate, toNumber = digitsNumber \<rparr>"

text \<open>The four default ranges as pairs of dates, and a date that lies in one of them.\<close>

definition defaultRanges :: "(date \<times> date) list" where
  "defaultRanges =
     [(newDate 2024 10 25, newDate 2024 10 29),
      (newDate 2024 11 23, newDate 2024 11 31),
      (newDate 2025 2 1, newDate 2025 2 7),
      (newDate 2025 9 14, newDate 2025 9 18)]"

definition inDefaultBreak :: "date \<Rightarrow> bool" where
  "inDefaultBreak d = list_ex (\<lambda>(lo, hi). lo \<le> d \<and> d \<le> hi) defaultRanges"

text \<open>The invariant of the map of sections after the rows \<open>rows\<close>.\<close>

definition sectionsInv :: "(string \<times> sectionRec) list \<Rightarrow> rawItem list \<Rightarrow> bool" where
  "sectionsInv sm rows \<longleftrightarrow>
     distinct (map fst sm) \<and> set (map fst sm) = sectionKey ` set rows
     \<and> (\<forall>(k, s) \<in> set sm.
           sSchedule s = List.map_filter rowMeeting (filter (\<lambda>i. sectionKey i = k) rows))"

text \<open>
  The events of a result, none for an error; the term an entry is looked up with; sample
  data: a course, a client that counts its calls, and an entry.
\<close>

definition eventsOf :: "error + scheduleEvent list \<Rightarrow> scheduleEvent list" where
  "eventsOf r = (case r of Inl e \<Rightarrow> [] | Inr evs \<Rightarrow> evs)"

definition termOf :: "date \<Rightarrow> courseInfo \<Rightarrow> string" where
  "termOf now ci = (case iTerm ci of Some t \<Rightarrow> t | None \<Rightarrow> getCurrentTerm now)"

definition sampleCourse :: course where
  "sampleCourse =
     \<lparr> cCode = ''COMP 248'', cTitle = ''Programming'', cCredits = ''3.5'',
       cSections = [\<lparr> sSection = ''A'', sType = ''Lecture'', sInstructor = [], sLocation = ''H 110'',
                      sSchedule = [\<lparr> mDays = [0, 2], mStartTime = ''11:45'', mEndTime = ''13:00'',
                                     mLocation = [], mType = ''Lecture'' \<rparr>],
                      sCapacity = Some 60, sEnrolled = Some 40, sWaitlist = Some 0 \<rparr>],
       cDescription = [], cPrerequisites = [], cDepartment = ''COMP'' \<rparr>"

definition sampleClient :: "nat courseClient" where
  "sampleClient calls code term =
     (if code = ''COMP 248'' then Inr (Some sampleCourse)
      else if code = ''BOOM 100'' then Inl (Error ''timeout'')
      else Inr None, Suc calls)"

definition sampleInfo :: "string \<Rightarrow> string option \<Rightarrow> courseInfo" where
  "sampleInfo code sec = \<lparr> iCode = code, iSection = sec, iTerm = Some ''20242'' \<rparr>"

text \<open>
  The dates of the rows of one event: the weekly steps from its first occurrence up to the
  end date for which \<open>isBreakWeek\<close> returns false.
\<close>

definition eventDates :: "runtime \<Rightarrow> breaksVal \<Rightarrow> date \<Rightarrow> date \<Rightarrow> scheduleEvent \<Rightarrow> date list" where
  "eventDates rt cb s e course =
     filter (\<lambda>d. isBreakWeek rt d cb = Inr False) (weeks e (getFirstWeekdayOccurrence s (eDay course)))"

text \<open>
  Reading a quoted value back: every pair of double quotes stands for one, and a double
  quote on its own does not occur.
\<close>

fun undoubleQuotes :: "string \<Rightarrow> string option" where
  "undoubleQuotes [] = Some []"
| "undoubleQuotes [c] = (if c = CHR 0x22 then None else Some [c])"
| "undoubleQuotes (c # d # r) =
     (if c = CHR 0x22
      then (if d = CHR 0x22 then map_option ((#) c) (undoubleQuotes r) else None)
      else map_option ((#) c) (undoubleQuotes (d # r)))"


section \<open>Properties of the day parser\<close>

lemma dayMap_range: "map_of dayMap m = Some d \<Longrightarrow> d < 7"
  by (drule map_of_SomeD) (auto simp: dayMap_def)

lemma toDecimal_digit: "n < 10 \<Longrightarrow> toDecimal n = [digitChar n]"
  by (simp add: toDecimal.simps)

lemma below_seven_cases:
  "(a::nat) < 7 \<Longrightarrow> a = 0 \<or> a = 1 \<or> a = 2 \<or> a = 3 \<or> a = 4 \<or> a = 5 \<or> a = 6"
  by arith

lemma digitChar_code: "a < 7 \<Longrightarrow> (of_char (digitChar a) :: nat) = 48 + a"
  by (drule below_seven_cases) (auto simp: digitChar_def)

text \<open>On the weekday indices the order of the string forms is the order of the numbers.\<close>

lemma toDecimal_order:
  assumes "a < 7" "b < 7" "toDecimal a \<le> toDecimal b"
  shows "a \<le> b"
proof -
  from assms have "[digitChar a] \<le> [digitChar b]" by (simp add: toDecimal_digit)
  then have "(of_char (digitChar a) :: nat) \<le> of_char (digitChar b)"
    by (auto simp: less_eq_char_def less_char_def)
  with assms show ?thesis by (simp add: digitChar_code)
qed

lemma collectDays_inv:
  "distinct days \<Longrightarrow> \<forall>d \<in> set days. d < 7 \<Longrightarrow>
   distinct (collectDays days ms) \<and> (\<forall>d \<in> set (collectDays days ms). d < 7)"
proof (induction ms arbitrary: days)
  case Nil
  then show ?case by simp
next
  case (Cons m ms)
  show ?case
  proof (cases "map_of dayMap m")
    case None
    with Cons show ?thesis by simp
  next
    case (Some d)
    then have d: "d < 7" by (rule dayMap_range)
    show ?thesis
    proof (cases "d \<in> set days")
      case True
      with Some Cons.prems Cons.IH [of days] show ?thesis by simp
    next
      case False
      with d Cons.prems have "distinct (days @ [d])" "\<forall>x \<in> set (days @ [d]). x < 7" by auto
      from Cons.IH [OF this] Some False show ?thesis by simp
    qed
  qed
qed

lemma sorted_by_key:
  "sorted (map toDecimal xs) \<Longrightarrow> \<forall>x \<in> set xs. x < 7 \<Longrightarrow> sorted xs"
proof (induction xs)
  case Nil
  then show ?case by simp
next
  case (Cons x xs)
  then have "\<forall>y \<in> set xs. toDecimal x \<le> toDecimal y" by simp
  with Cons.prems have "\<forall>y \<in> set xs. x \<le> y" by (simp add: toDecimal_order)
  with Cons show ?case by simp
qed

lemma js_sort_small: "\<forall>x \<in> set xs. x < 7 \<Longrightarrow> sorted (js_sort xs)"
  unfolding js_sort_def by (rule sorted_by_key) simp_all

lemma parseDays_inv:
  "distinct (parseDays v) \<and> sorted (parseDays v) \<and> (\<forall>d \<in> set (parseDays v). d < 7)"
proof (cases v)
  case (Str s)
  have inv: "distinct (collectDays [] (execAll s)) \<and>
             (\<forall>d \<in> set (collectDays [] (execAll s)). d < 7)"
    by (rule collectDays_inv) simp_all
  then have "sorted (js_sort (collectDays [] (execAll s)))" by (simp add: js_sort_small)
  with inv show ?thesis using Str by (simp add: js_sort_def)
qed simp_all

text \<open>
  Claim C7. For every input, \<open>parseDays\<close> returns a list of weekday indices without
  duplicates and in ascending order; a string in which the pattern finds no token gives the
  empty list; and \<open>parseDays "MoWeFr" = [0,2,4]\<close>, \<open>parseDays "TuTh" = [1,3]\<close>,
  \<open>parseDays "" = []\<close>.
\<close>

theorem parseDays_sorted_distinct:
  "distinct (parseDays v) \<and> sorted (parseDays v) \<and> (\<forall>d \<in> set (parseDays v). d < 7)
   \<and> (execAll s = [] \<longrightarrow> parseDays (Str s) = [])
   \<and> parseDays (Str ''MoWeFr'') = [0, 2, 4]
   \<and> parseDays (Str ''TuTh'') = [1, 3]
   \<and> parseDays (Str '''') = []"
proof -
  have a: "execAll s = [] \<longrightarrow> parseDays (Str s) = []" by (simp add: js_sort_def)
  have b: "parseDays (Str ''MoWeFr'') = [0, 2, 4]" by code_simp
  have c: "parseDays (Str ''TuTh'') = [1, 3]" by code_simp
  have d: "parseDays (Str '''') = []" by simp
  from parseDays_inv [of v] a b c d show ?thesis by blast
qed

theorem parseDays_sorted_distinct_witness:
  "execAll ''x-y'' = [] \<and> parseDays (Str ''x-y'') = []
   \<and> parseDays (Str ''FrMoFr'') = [0, 4]
   \<and> 4 \<in> set (parseDays (Str ''FrMoFr'')) \<and> (4::nat) < 7"
proof -
  have e: "execAll ''x-y'' = []" by code_simp
  have f: "parseDays (Str ''FrMoFr'') = [0, 4]" by code_simp
  from parseDays_sorted_distinct [of "Str ''FrMoFr''" "''x-y''"] e f show ?thesis by simp
qed

text \<open>
  Claim C10. The pattern matches day tokens in any case, the table holds them only as
  written in the source: the lower-case string \<open>mowefr\<close> spells three day codes, the
  pattern finds all three, and \<open>parseDays\<close> returns the empty list, not \<open>[0,2,4]\<close>.
\<close>

theorem parseDays_lowercase_empty:
  "execAll ''mowefr'' = [''mo'', ''we'', ''fr'']
   \<and> map (map_of dayMap) [''mo'', ''we'', ''fr''] = [None, None, None]
   \<and> parseDays (Str ''mowefr'') = []
   \<and> parseDays (Str ''MoWeFr'') = [0, 2, 4]"
proof -
  have a: "execAll ''mowefr'' = [''mo'', ''we'', ''fr'']" by code_simp
  have b: "map (map_of dayMap) [''mo'', ''we'', ''fr''] = [None, None, None]" by code_simp
  have c: "parseDays (Str ''mowefr'') = []" by code_simp
  have d: "parseDays (Str ''MoWeFr'') = [0, 2, 4]" by code_simp
  from a b c d show ?thesis by blast
qed


section \<open>Properties of the time parser\<close>

lemma toUpperChar_A: "toUpperChar c = CHR ''A'' \<longleftrightarrow> c = CHR ''a'' \<or> c = CHR ''A''"
  by (auto simp: toUpperChar_def split: option.splits if_splits)
lemma toUpperChar_P: "toUpperChar c = CHR ''P'' \<longleftrightarrow> c = CHR ''p'' \<or> c = CHR ''P''"
  by (auto simp: toUpperChar_def split: option.splits if_splits)
lemma toUpperChar_M: "toUpperChar c = CHR ''M'' \<longleftrightarrow> c = CHR ''m'' \<or> c = CHR ''M''"
  by (auto simp: toUpperChar_def split: option.splits if_splits)

lemma length2: "length xs = 2 \<Longrightarrow> \<exists>a b. xs = [a, b]"
  by (cases xs; cases "tl xs") auto

lemma isPeriod_cases:
  "toUpperCase per = ''AM'' \<or> toUpperCase per = ''PM'' \<Longrightarrow>
   \<exists>p q. per = [p, q] \<and> (p = CHR ''a'' \<or> p = CHR ''A'' \<or> p = CHR ''p'' \<or> p = CHR ''P'') \<and> (q = CHR ''m'' \<or> q = CHR ''M'')"
  by (auto simp: toUpperCase_def toUpperChar_A toUpperChar_P toUpperChar_M)


lemma period_not_ws:
  "toUpperCase per = ''AM'' \<or> toUpperCase per = ''PM'' \<Longrightarrow>
   list_all isWhitespace ws \<Longrightarrow> dropWhile isWhitespace (ws @ per) = per"
proof -
  assume p: "toUpperCase per = ''AM'' \<or> toUpperCase per = ''PM''" and w: "list_all isWhitespace ws"
  from isPeriod_cases [OF p] obtain a b where ab: "per = [a, b]"
    "a = CHR ''a'' \<or> a = CHR ''A'' \<or> a = CHR ''p'' \<or> a = CHR ''P''" by blast
  then have "\<not> isWhitespace a" by (auto simp: isWhitespace_def)
  with ab have "dropWhile isWhitespace per = per" by simp
  moreover from w have "dropWhile isWhitespace (ws @ per) = dropWhile isWhitespace per"
    by (induction ws) auto
  ultimately show ?thesis by simp
qed

lemma period_prefix:
  "toUpperCase per = ''AM'' \<or> toUpperCase per = ''PM'' \<Longrightarrow>
   (prefixCI ''AM'' per \<or> prefixCI ''PM'' per) \<and> drop 2 per = [] \<and> take 2 per = per"
  by (drule isPeriod_cases) (auto simp: toUpperChar_def)

lemma matchPeriod_sound:
  assumes "list_all isWhitespace ws"
    and "(per = [] \<and> ws = []) \<or> toUpperCase per = ''AM'' \<or> toUpperCase per = ''PM''"
  shows "matchPeriod (ws @ per) = Some (if per = [] then None else Some per)"
proof (cases "toUpperCase per = ''AM'' \<or> toUpperCase per = ''PM''")
  case True
  then have "per \<noteq> []" by (auto simp: toUpperCase_def)
  with True assms(1) show ?thesis
    using period_not_ws [OF True assms(1)] period_prefix [OF True]
    by (simp add: matchPeriod_def)
next
  case False
  with assms(2) have "per = []" "ws = []" by auto
  then show ?thesis by (simp add: matchPeriod_def)
qed

lemma prefixCI_two:
  "prefixCI [x, y] r \<Longrightarrow> drop 2 r = [] \<Longrightarrow> toUpperCase r = [toUpperChar x, toUpperChar y]"
  by (cases r; cases "tl r") (auto simp: toUpperCase_def)

lemma matchPeriod_complete:
  assumes "matchPeriod r = Some p"
  shows "\<exists>ws per. r = ws @ per \<and> list_all isWhitespace ws
           \<and> ((per = [] \<and> ws = []) \<or> toUpperCase per = ''AM'' \<or> toUpperCase per = ''PM'')
           \<and> p = (if per = [] then None else Some per)"
proof -
  define ws where "ws = takeWhile isWhitespace r"
  define per where "per = dropWhile isWhitespace r"
  have r: "r = ws @ per" by (simp add: ws_def per_def)
  have w: "list_all isWhitespace ws"
    unfolding ws_def list_all_iff by (auto dest: set_takeWhileD)
  show ?thesis
  proof (cases "(prefixCI ''AM'' per \<or> prefixCI ''PM'' per) \<and> drop 2 per = []")
    case True
    then have d2: "drop 2 per = []" by simp
    from True have "toUpperCase per = [toUpperChar CHR ''A'', toUpperChar CHR ''M'']
        \<or> toUpperCase per = [toUpperChar CHR ''P'', toUpperChar CHR ''M'']"
      using prefixCI_two [OF _ d2] by blast
    then have up: "toUpperCase per = ''AM'' \<or> toUpperCase per = ''PM''"
      by (simp add: toUpperChar_def)
    then have ne: "per \<noteq> []" by (auto simp: toUpperCase_def)
    from d2 have tk: "take 2 per = per" by simp
    from assms True tk have p: "p = Some per"
      by (simp add: matchPeriod_def Let_def per_def [symmetric])
    from r w up p ne show ?thesis by auto
  next
    case False
    with assms have "r = []" "p = None"
      by (auto simp: matchPeriod_def Let_def per_def [symmetric] split: if_splits)
    then show ?thesis by simp
  qed
qed

lemma matchSeconds_nocolon:
  "r = [] \<or> hd r \<noteq> CHR '':'' \<Longrightarrow> matchSeconds r = map_option (Pair None) (matchPeriod r)"
  by (auto simp: matchSeconds_def split: list.splits)

lemma tail_no_colon:
  assumes "list_all isWhitespace ws"
    and "(per = [] \<and> ws = []) \<or> toUpperCase per = ''AM'' \<or> toUpperCase per = ''PM''"
  shows "ws @ per = [] \<or> hd (ws @ per) \<noteq> CHR '':''"
proof (cases ws)
  case Nil
  show ?thesis
  proof (cases "per = []")
    case True with Nil show ?thesis by simp
  next
    case False
    with assms(2) have "toUpperCase per = ''AM'' \<or> toUpperCase per = ''PM''" by auto
    from isPeriod_cases [OF this] Nil show ?thesis by auto
  qed
next
  case (Cons w ws')
  with assms(1) have "isWhitespace w" by simp
  then have "w \<noteq> CHR '':''" by (auto simp: isWhitespace_def)
  with Cons show ?thesis by simp
qed

lemma secondsShape_cases:
  "secondsShape secs \<Longrightarrow> secs = [] \<or> (\<exists>a b. secs = [CHR '':'', a, b] \<and> isDigit a \<and> isDigit b)"
  unfolding secondsShape_def
  by (cases secs; cases "tl secs"; cases "tl (tl secs)") auto

lemma matchSeconds_sound:
  assumes "secondsShape secs" "list_all isWhitespace ws"
    and "(per = [] \<and> ws = []) \<or> toUpperCase per = ''AM'' \<or> toUpperCase per = ''PM''"
  shows "matchSeconds (secs @ ws @ per) =
           Some (if secs = [] then None else Some (tl secs), if per = [] then None else Some per)"
proof -
  note mp = matchPeriod_sound [OF assms(2,3)]
  from secondsShape_cases [OF assms(1)] show ?thesis
  proof
    assume "secs = []"
    with mp matchSeconds_nocolon [OF tail_no_colon [OF assms(2,3)]] show ?thesis by simp
  next
    assume "\<exists>a b. secs = [CHR '':'', a, b] \<and> isDigit a \<and> isDigit b"
    then obtain a b where "secs = [CHR '':'', a, b]" "isDigit a" "isDigit b" by blast
    with mp show ?thesis by (simp add: matchSeconds_def)
  qed
qed

lemma matchSeconds_complete:
  assumes "matchSeconds r = Some (sec, p)"
  shows "\<exists>secs ws per. r = secs @ ws @ per \<and> secondsShape secs \<and> list_all isWhitespace ws
           \<and> ((per = [] \<and> ws = []) \<or> toUpperCase per = ''AM'' \<or> toUpperCase per = ''PM'')
           \<and> sec = (if secs = [] then None else Some (tl secs))
           \<and> p = (if per = [] then None else Some per)"
proof (cases "\<exists>a b r'. r = CHR '':'' # a # b # r' \<and> isDigit a \<and> isDigit b \<and> matchPeriod r' \<noteq> None")
  case True
  then obtain a b r' q where r: "r = CHR '':'' # a # b # r'" "isDigit a" "isDigit b"
    and q: "matchPeriod r' = Some q" by auto
  with assms have sp: "sec = Some [a, b]" "p = q" by (simp_all add: matchSeconds_def)
  from matchPeriod_complete [OF q] obtain ws per where
    w: "r' = ws @ per" "list_all isWhitespace ws"
       "(per = [] \<and> ws = []) \<or> toUpperCase per = ''AM'' \<or> toUpperCase per = ''PM''"
       "q = (if per = [] then None else Some per)" by blast
  have "secondsShape [CHR '':'', a, b]" using r by (simp add: secondsShape_def)
  moreover have "r = [CHR '':'', a, b] @ ws @ per" using r w by simp
  ultimately show ?thesis using w sp
    by (intro exI [of _ "[CHR '':'', a, b]"] exI [of _ ws] exI [of _ per]) simp
next
  case False
  with assms have "matchPeriod r = Some p \<and> sec = None"
    by (auto simp: matchSeconds_def split: list.splits if_splits option.splits)
  then have mp: "matchPeriod r = Some p" and sec: "sec = None" by auto
  from matchPeriod_complete [OF mp] obtain ws per where
    w: "r = ws @ per" "list_all isWhitespace ws"
       "(per = [] \<and> ws = []) \<or> toUpperCase per = ''AM'' \<or> toUpperCase per = ''PM''"
       "p = (if per = [] then None else Some per)" by blast
  then show ?thesis using sec
    by (intro exI [of _ "[]"] exI [of _ ws] exI [of _ per]) (simp add: secondsShape_def)
qed


lemma matchMinute_sound:
  assumes "list_all isDigit ms" "length ms = 2" "secondsShape secs" "list_all isWhitespace ws"
    and "(per = [] \<and> ws = []) \<or> toUpperCase per = ''AM'' \<or> toUpperCase per = ''PM''"
  shows "matchMinute (CHR '':'' # ms @ secs @ ws @ per) =
           Some (ms, if secs = [] then None else Some (tl secs), if per = [] then None else Some per)"
proof -
  from length2 [OF assms(2)] obtain a b where ms: "ms = [a, b]" by blast
  with assms(1) matchSeconds_sound [OF assms(3,4,5)] show ?thesis
    by (simp add: matchMinute_def)
qed

lemma matchMinute_complete:
  assumes "matchMinute r = Some (m, sec, p)"
  shows "\<exists>secs ws per. r = CHR '':'' # m @ secs @ ws @ per \<and> list_all isDigit m \<and> length m = 2
           \<and> secondsShape secs \<and> list_all isWhitespace ws
           \<and> ((per = [] \<and> ws = []) \<or> toUpperCase per = ''AM'' \<or> toUpperCase per = ''PM'')
           \<and> sec = (if secs = [] then None else Some (tl secs))
           \<and> p = (if per = [] then None else Some per)"
proof -
  from assms obtain a b r' where r: "r = CHR '':'' # a # b # r'" "isDigit a" "isDigit b"
    and m: "m = [a, b]" and ms: "matchSeconds r' = Some (sec, p)"
    by (auto simp: matchMinute_def split: list.splits if_splits)
  from matchSeconds_complete [OF ms] obtain secs ws per where
    w: "r' = secs @ ws @ per" "secondsShape secs" "list_all isWhitespace ws"
       "(per = [] \<and> ws = []) \<or> toUpperCase per = ''AM'' \<or> toUpperCase per = ''PM''"
       "sec = (if secs = [] then None else Some (tl secs))"
       "p = (if per = [] then None else Some per)" by blast
  with r m show ?thesis
    by (intro exI [of _ secs] exI [of _ ws] exI [of _ per]) simp
qed

lemma colon_not_digit: "\<not> isDigit (CHR '':'')"
  by (simp add: isDigit_def)

lemma timePattern_match_sound:
  assumes "list_all isDigit hs" "length hs = 1 \<or> length hs = 2"
    "list_all isDigit ms" "length ms = 2" "secondsShape secs" "list_all isWhitespace ws"
    "(per = [] \<and> ws = []) \<or> toUpperCase per = ''AM'' \<or> toUpperCase per = ''PM''"
  shows "timePattern_match (hs @ CHR '':'' # ms @ secs @ ws @ per) =
           Some (hs, ms, if secs = [] then None else Some (tl secs), if per = [] then None else Some per)"
proof -
  note mm = matchMinute_sound [OF assms(3-7)]
  from assms(2) show ?thesis
  proof
    assume "length hs = 1"
    then obtain h where hs: "hs = [h]" by (cases hs) auto
    with assms(1) mm show ?thesis
      by (simp add: timePattern_match_def colon_not_digit)
  next
    assume "length hs = 2"
    from length2 [OF this] obtain h1 h2 where hs: "hs = [h1, h2]" by blast
    with assms(1) mm show ?thesis
      by (simp add: timePattern_match_def)
  qed
qed

lemma timePattern_match_complete:
  assumes "timePattern_match t = Some (h, m, sec, p)"
  shows "\<exists>secs ws per. t = h @ CHR '':'' # m @ secs @ ws @ per
           \<and> list_all isDigit h \<and> (length h = 1 \<or> length h = 2)
           \<and> list_all isDigit m \<and> length m = 2
           \<and> secondsShape secs \<and> list_all isWhitespace ws
           \<and> ((per = [] \<and> ws = []) \<or> toUpperCase per = ''AM'' \<or> toUpperCase per = ''PM'')
           \<and> sec = (if secs = [] then None else Some (tl secs))
           \<and> p = (if per = [] then None else Some per)"
proof -
  from assms obtain h1 h2 r where t: "t = h1 # h2 # r" and d1: "isDigit h1"
    by (auto simp: timePattern_match_def split: list.splits if_splits)
  have "(h = [h1, h2] \<and> isDigit h2 \<and> matchMinute r = Some (m, sec, p))
        \<or> (h = [h1] \<and> matchMinute (h2 # r) = Some (m, sec, p))"
    using assms t d1
    by (auto simp: timePattern_match_def split: if_splits option.splits)
  then show ?thesis
  proof
    assume a: "h = [h1, h2] \<and> isDigit h2 \<and> matchMinute r = Some (m, sec, p)"
    then have mm: "matchMinute r = Some (m, sec, p)" by simp
    from matchMinute_complete [OF mm] a t d1 show ?thesis by auto
  next
    assume a: "h = [h1] \<and> matchMinute (h2 # r) = Some (m, sec, p)"
    then have mm: "matchMinute (h2 # r) = Some (m, sec, p)" by simp
    from matchMinute_complete [OF mm] a t d1 show ?thesis by auto
  qed
qed

lemma isDigit_digitChar: "isDigit c \<Longrightarrow> digitVal c < 10 \<and> digitChar (digitVal c) = c"
  by (auto simp: isDigit_def digitVal_def digitChar_def)

lemma digitChar_mod: "digitChar (10 * a + b) = digitChar b"
  by (simp add: digitChar_def)

lemma two_digits_roundtrip:
  assumes "isDigit a" "isDigit b"
  shows "padStart2 (toDecimal (parseDigits [a, b])) = [a, b]"
proof -
  let ?x = "digitVal a" and ?y = "digitVal b"
  from isDigit_digitChar [OF assms(1)] have x: "?x < 10" "digitChar ?x = a" by auto
  from isDigit_digitChar [OF assms(2)] have y: "?y < 10" "digitChar ?y = b" by auto
  have pd: "parseDigits [a, b] = 10 * ?x + ?y" by (simp add: parseDigits_def)
  show ?thesis
  proof (cases "?x = 0")
    case True
    with x have "a = CHR ''0''" by (simp add: digitChar_def)
    with True y pd show ?thesis by (simp add: toDecimal_digit padStart2_def)
  next
    case False
    with y have "toDecimal (10 * ?x + ?y) = toDecimal ?x @ [digitChar (10 * ?x + ?y)]"
      by (subst toDecimal.simps) simp
    with x y pd show ?thesis by (simp add: toDecimal_digit digitChar_mod padStart2_def)
  qed
qed


lemma applyPeriod_hour24: "applyPeriod per h = hour24 per h"
  by (auto simp: applyPeriod_def hour24_def Let_def)

lemma hour24_empty: "hour24 [] h = h"
  by (simp add: hour24_def toUpperCase_def)

lemma set_trim: "set (trim s) \<subseteq> set s"
proof -
  have "set (trim s) \<subseteq> set (rev (dropWhile isWhitespace s))"
    unfolding trim_def by (auto dest: set_dropWhileD)
  also have "\<dots> \<subseteq> set s" by (auto dest: set_dropWhileD)
  finally show ?thesis .
qed

lemma sanitizeTime_shape:
  assumes "colonShape hs ms secs ws per" "trim s = hs @ '':'' @ ms @ secs @ ws @ per"
  shows "sanitizeTime (Str s) = Some (padStart2 (toDecimal (hour24 per (parseDigits hs))) @ '':'' @ ms)"
proof -
  from assms(1) have c: "list_all isDigit hs" "length hs = 1 \<or> length hs = 2"
    "list_all isDigit ms" "length ms = 2" "secondsShape secs" "list_all isWhitespace ws"
    "(per = [] \<and> ws = []) \<or> toUpperCase per = ''AM'' \<or> toUpperCase per = ''PM''"
    by (simp_all add: colonShape_def)
  from assms(2) have ne: "s \<noteq> []" by (auto simp: trim_def)
  from length2 [OF c(4)] obtain a b where ms: "ms = [a, b]" by blast
  with c(3) have "padStart2 (toDecimal (parseDigits ms)) = ms" by (simp add: two_digits_roundtrip)
  with timePattern_match_sound [OF c] assms(2) ne show ?thesis
    by (simp add: applyPeriod_hour24 hour24_empty)
qed

lemma convertTimeFormat_shape:
  assumes "colonShape hs ms secs ws per" "trim s = hs @ '':'' @ ms @ secs @ ws @ per"
  shows "convertTimeFormat (Str s) = Some (padStart2 (toDecimal (hour24 per (parseDigits hs))) @ '':'' @ ms)"
proof -
  from assms(2) have "CHR '':'' \<in> set (trim s)" by simp
  with set_trim [of s] have "CHR '':'' \<in> set s" by blast
  then have nd: "\<not> list_all isDigit s" using colon_not_digit by (auto simp: list_all_iff)
  from assms(2) have ne: "s \<noteq> []" by (auto simp: trim_def)
  from nd ne sanitizeTime_shape [OF assms] show ?thesis by simp
qed

lemma convertTimeFormat_only:
  assumes "convertTimeFormat v \<noteq> None"
  shows "\<exists>t. v = Str t \<and> ((length t = 4 \<and> list_all isDigit t)
           \<or> (\<exists>hs ms secs ws per. colonShape hs ms secs ws per
                 \<and> trim t = hs @ '':'' @ ms @ secs @ ws @ per))"
proof (cases v)
  case (Str t)
  show ?thesis
  proof (cases "length t = 4 \<and> list_all isDigit t")
    case True
    with Str show ?thesis by simp
  next
    case False
    with assms Str obtain h m sec p where tm: "timePattern_match (trim t) = Some (h, m, sec, p)"
      by (auto split: if_splits option.splits)
    from timePattern_match_complete [OF tm] obtain secs ws per where
      "trim t = h @ CHR '':'' # m @ secs @ ws @ per" "colonShape h m secs ws per"
      unfolding colonShape_def by blast
    then have "colonShape h m secs ws per \<and> trim t = h @ '':'' @ m @ secs @ ws @ per"
      by simp
    then have "\<exists>hs ms secs ws per. colonShape hs ms secs ws per
                 \<and> trim t = hs @ '':'' @ ms @ secs @ ws @ per" by blast
    with Str show ?thesis by blast
  qed
qed (use assms in simp_all)

text \<open>
  Claim C6. \<open>convertTimeFormat\<close> (the time parser) accepts a string of four digits
  \<open>HHMM\<close> and gives \<open>HH:MM\<close>; it accepts, after trimming, \<open>H:MM\<close> or \<open>HH:MM\<close> with
  optional seconds and an optional \<^verbatim>\<open>AM\<close>/\<^verbatim>\<open>PM\<close> in any case, and gives the hour
  converted to the 24-hour clock (12 AM is 00, 12 PM stays 12, PM adds 12 to the hours 1
  to 11) and the minutes; it returns null for every value of no such shape; and it maps
  \<open>1400\<close> to \<open>14:00\<close>, \<open>2:30 PM\<close> to \<open>14:30\<close>, \<open>12:00 AM\<close> to \<open>00:00\<close> and
  \<open>garbage\<close> to null.
\<close>

theorem convertTimeFormat_shapes:
  "(length d = 4 \<and> list_all isDigit d \<longrightarrow>
      convertTimeFormat (Str d) = Some (take 2 d @ '':'' @ drop 2 d))
   \<and> (colonShape hs ms secs ws per \<and> trim s = hs @ '':'' @ ms @ secs @ ws @ per \<longrightarrow>
      convertTimeFormat (Str s) =
        Some (padStart2 (toDecimal (hour24 per (parseDigits hs))) @ '':'' @ ms))
   \<and> (convertTimeFormat v \<noteq> None \<longrightarrow>
      (\<exists>t. v = Str t \<and> ((length t = 4 \<and> list_all isDigit t)
         \<or> (\<exists>hs ms secs ws per. colonShape hs ms secs ws per
               \<and> trim t = hs @ '':'' @ ms @ secs @ ws @ per))))
   \<and> (toUpperCase per = ''AM'' \<longrightarrow> hour24 per 12 = 0)
   \<and> (toUpperCase per = ''PM'' \<longrightarrow> hour24 per 12 = 12)
   \<and> (toUpperCase per = ''PM'' \<and> 1 \<le> h \<and> h \<le> 11 \<longrightarrow> hour24 per h = h + 12)
   \<and> convertTimeFormat (Str ''1400'') = Some ''14:00''
   \<and> convertTimeFormat (Str ''2:30 PM'') = Some ''14:30''
   \<and> convertTimeFormat (Str ''12:00 AM'') = Some ''00:00''
   \<and> convertTimeFormat (Str ''garbage'') = None"
proof -
  have a: "length d = 4 \<and> list_all isDigit d \<longrightarrow>
      convertTimeFormat (Str d) = Some (take 2 d @ '':'' @ drop 2 d)" by auto
  have b: "colonShape hs ms secs ws per \<and> trim s = hs @ '':'' @ ms @ secs @ ws @ per \<longrightarrow>
      convertTimeFormat (Str s) =
        Some (padStart2 (toDecimal (hour24 per (parseDigits hs))) @ '':'' @ ms)"
    using convertTimeFormat_shape by blast
  have c: "convertTimeFormat v \<noteq> None \<longrightarrow>
      (\<exists>t. v = Str t \<and> ((length t = 4 \<and> list_all isDigit t)
         \<or> (\<exists>hs ms secs ws per. colonShape hs ms secs ws per
               \<and> trim t = hs @ '':'' @ ms @ secs @ ws @ per)))"
    using convertTimeFormat_only by blast
  have d: "toUpperCase per = ''AM'' \<longrightarrow> hour24 per 12 = 0" by (simp add: hour24_def)
  have e: "toUpperCase per = ''PM'' \<longrightarrow> hour24 per 12 = 12" by (simp add: hour24_def)
  have f: "toUpperCase per = ''PM'' \<and> 1 \<le> h \<and> h \<le> 11 \<longrightarrow> hour24 per h = h + 12"
    by (simp add: hour24_def)
  have g: "convertTimeFormat (Str ''1400'') = Some ''14:00''" by code_simp
  have h: "convertTimeFormat (Str ''2:30 PM'') = Some ''14:30''" by code_simp
  have i: "convertTimeFormat (Str ''12:00 AM'') = Some ''00:00''" by code_simp
  have j: "convertTimeFormat (Str ''garbage'') = None" by code_simp
  from a b c d e f g h i j show ?thesis by blast
qed

theorem convertTimeFormat_shapes_witness:
  "length ''0905'' = 4 \<and> list_all isDigit ''0905''
   \<and> convertTimeFormat (Str ''0905'') = Some ''09:05''
   \<and> colonShape ''7'' ''05'' '':59'' ''  '' ''pm''
   \<and> trim '' 7:05:59  pm '' = ''7'' @ '':'' @ ''05'' @ '':59'' @ ''  '' @ ''pm''
   \<and> convertTimeFormat (Str '' 7:05:59  pm '') = Some ''19:05''
   \<and> toUpperCase ''pm'' = ''PM'' \<and> hour24 ''pm'' 7 = 19"
proof -
  have a: "length ''0905'' = 4 \<and> list_all isDigit ''0905''" by code_simp
  have b: "colonShape ''7'' ''05'' '':59'' ''  '' ''pm''" by code_simp
  have c: "trim '' 7:05:59  pm '' = ''7'' @ '':'' @ ''05'' @ '':59'' @ ''  '' @ ''pm''" by code_simp
  have d: "toUpperCase ''pm'' = ''PM''" by code_simp
  have e: "padStart2 (toDecimal (7 + 12)) = ''19''" by code_simp
  have f: "parseDigits ''7'' = 7" by code_simp
  have g: "convertTimeFormat (Str '' 7:05:59  pm '') \<noteq> None" by code_simp
  from convertTimeFormat_shapes [of "''0905''" "''7''" "''05''" "'':59''" "''  ''" "''pm''"
      "'' 7:05:59  pm ''" "Str '' 7:05:59  pm ''" 7] a b c d e f g
  show ?thesis by simp
qed

text \<open>
  Claim C9. The time parser checks the shape of its input and not the range of the
  numbers: \<open>99:99\<close> has an hour above 23 and minutes above 59, and \<open>convertTimeFormat\<close>
  returns it unchanged instead of null; the four-digit form \<open>9999\<close> gives the same. The
  time goes on into the meeting of a row of the feed, and from an event into the Start Time
  of its CSV row.
\<close>

theorem convertTimeFormat_out_of_range:
  "convertTimeFormat (Str ''99:99'') = Some ''99:99''
   \<and> sanitizeTime (Str ''99:99'') = Some ''99:99''
   \<and> convertTimeFormat (Str ''9999'') = Some ''99:99''
   \<and> map_option mStartTime (rowMeeting (mondayRow\<lparr> classStartTime := Str ''99:99'' \<rparr>))
        = Some ''99:99''
   \<and> map_of (csvEventOf ((sampleEvent 1)\<lparr> eStartTime := ''99:99'' \<rparr>) d) ''Start Time''
        = Some ''99:99''"
proof -
  have a: "convertTimeFormat (Str ''99:99'') = Some ''99:99''" by code_simp
  have b: "sanitizeTime (Str ''99:99'') = Some ''99:99''" by code_simp
  have c: "convertTimeFormat (Str ''9999'') = Some ''99:99''" by code_simp
  have e: "convertTimeFormat (Str ''1300'') = Some ''13:00''" by code_simp
  have m: "map_option mStartTime (rowMeeting (mondayRow\<lparr> classStartTime := Str ''99:99'' \<rparr>))
        = Some ''99:99''"
    by (simp add: rowMeeting_def mondayRow_def extractDaysFromSchedule_def a e
             del: convertTimeFormat.simps)
  have r: "map_of (csvEventOf ((sampleEvent 1)\<lparr> eStartTime := ''99:99'' \<rparr>) d) ''Start Time''
        = Some ''99:99''"
    by (simp add: csvEventOf_def)
  from a b c m r show ?thesis by blast
qed

section \<open>Properties of the weekly expansion\<close>

lemma someBreak_append:
  "someBreak rt d (xs @ ys) =
     (case someBreak rt d xs of Inr False \<Rightarrow> someBreak rt d ys | r \<Rightarrow> r)"
  by (induction rt d xs rule: someBreak.induct) (auto split: sum.splits bool.splits)

lemma someBreak_total: "None \<notin> set bs \<Longrightarrow> \<exists>b. someBreak rt d bs = Inr b"
  by (induction rt d bs rule: someBreak.induct) auto

lemma someBreak_default: "someBreak rt d defaultBreaks = Inr (inDefaultBreak d)"
  by (simp add: defaultBreaks_def inDefaultBreak_def defaultRanges_def)

lemma isBreakWeek_NoBreaks: "isBreakWeek rt d NoBreaks = Inr (inDefaultBreak d)"
  by (simp add: isBreakWeek_def someBreak_default)

lemma isBreakWeek_Breaks:
  "isBreakWeek rt d (Breaks bs) = (if inDefaultBreak d then Inr True else someBreak rt d bs)"
  by (simp add: isBreakWeek_def someBreak_append someBreak_default)




lemma isBreakWeek_total:
  "cb = NoBreaks \<or> (\<exists>bs. cb = Breaks bs \<and> None \<notin> set bs) \<Longrightarrow> \<exists>b. isBreakWeek rt d cb = Inr b"
  using someBreak_total [of _ rt d] by (auto simp: isBreakWeek_NoBreaks isBreakWeek_Breaks)

lemma weeklyLoop_Inr:
  "weeklyLoop rt course cb endD cur events = Inr rows \<Longrightarrow>
     rows = events @ map (csvEventOf course)
              (filter (\<lambda>d. isBreakWeek rt d cb = Inr False) (weeks endD cur))"
proof (induction rt course cb endD cur events rule: weeklyLoop.induct)
  case (1 rt course cb endD cur events)
  show ?case
  proof (cases "cur \<le> endD")
    case False
    with "1.prems" show ?thesis by (subst weeks.simps) (simp add: weeklyLoop.simps)
  next
    case True
    with "1.prems" obtain b where b: "isBreakWeek rt cur cb = Inr b"
      by (subst (asm) weeklyLoop.simps) (auto split: sum.splits)
    with True "1.prems"
    have "weeklyLoop rt course cb endD (addDays cur 7)
            (if \<not> b then events @ [csvEventOf course cur] else events) = Inr rows"
      by (subst (asm) weeklyLoop.simps) simp
    from "1.IH" [OF True b this] True b show ?thesis
      by (subst weeks.simps) (cases b; simp)
  qed
qed

lemma weeklyLoop_total:
  "(\<forall>d \<in> set (weeks endD cur). \<exists>b. isBreakWeek rt d cb = Inr b) \<Longrightarrow>
     \<exists>rows. weeklyLoop rt course cb endD cur events = Inr rows"
proof (induction rt course cb endD cur events rule: weeklyLoop.induct)
  case (1 rt course cb endD cur events)
  show ?case
  proof (cases "cur \<le> endD")
    case False
    then show ?thesis by (simp add: weeklyLoop.simps)
  next
    case True
    then have w: "weeks endD cur = cur # weeks endD (addDays cur 7)" by (subst weeks.simps) simp
    with "1.prems" obtain b where b: "isBreakWeek rt cur cb = Inr b" by auto
    from w "1.prems" have "\<forall>d \<in> set (weeks endD (addDays cur 7)). \<exists>b. isBreakWeek rt d cb = Inr b"
      by simp
    from "1.IH" [OF True b this] True b show ?thesis
      by (subst weeklyLoop.simps) simp
  qed
qed

lemma forEachEvent_Inr:
  "forEachEvent rt (Some s) (Some e) cb events cs = Inr rows \<Longrightarrow>
     rows = events @ concat (map (\<lambda>course. map (csvEventOf course) (eventDates rt cb s e course)) cs)"
proof (induction cs arbitrary: events)
  case Nil
  then show ?case by simp
next
  case (Cons c cs)
  from Cons.prems obtain ev1 where a: "eventRows rt (Some s) (Some e) cb events c = Inr ev1"
    and b: "forEachEvent rt (Some s) (Some e) cb ev1 cs = Inr rows"
    by (auto split: sum.splits)
  from a have "ev1 = events @ map (csvEventOf c) (eventDates rt cb s e c)"
    by (auto simp: eventRows_def eventDates_def dest: weeklyLoop_Inr)
  with Cons.IH [OF b] show ?case by simp
qed

lemma forEachEvent_invalid:
  "startD = None \<or> endD = None \<Longrightarrow> forEachEvent rt startD endD cb events cs = Inr events"
  by (induction cs arbitrary: events) (auto simp: eventRows_def split: option.splits)

lemma forEachEvent_total:
  "(\<forall>d. \<exists>b. isBreakWeek rt d cb = Inr b) \<Longrightarrow>
     \<exists>rows. forEachEvent rt startD endD cb events cs = Inr rows"
proof (induction cs arbitrary: events)
  case Nil
  show ?case by simp
next
  case (Cons c cs)
  have "\<exists>ev1. eventRows rt startD endD cb events c = Inr ev1"
    using Cons.prems weeklyLoop_total [of _ _ rt cb c events]
    by (auto simp: eventRows_def split: option.splits)
  then obtain ev1 where "eventRows rt startD endD cb events c = Inr ev1" by blast
  with Cons.IH [OF Cons.prems, of ev1] show ?case by simp
qed

lemma csvEvents_Inr:
  "csvEvents rt now scheduleData semInfo = Inr rows \<Longrightarrow>
     rows = (case getSemesterDates rt now semInfo of
               (Some s, Some e) \<Rightarrow>
                 concat (map (\<lambda>course. map (csvEventOf course)
                    (filter (\<lambda>d. isBreakWeek rt d (breaks semInfo) = Inr False)
                       (weeks e (getFirstWeekdayOccurrence s (eDay course))))) scheduleData)
             | _ \<Rightarrow> [])"
proof -
  assume a: "csvEvents rt now scheduleData semInfo = Inr rows"
  obtain sd ed where g: "getSemesterDates rt now semInfo = (sd, ed)"
    by (cases "getSemesterDates rt now semInfo")
  show ?thesis
  proof (cases "sd = None \<or> ed = None")
    case True
    with a g forEachEvent_invalid [OF True, of rt "breaks semInfo" "[]" scheduleData]
    show ?thesis by (auto simp: csvEvents_def split: option.splits)
  next
    case False
    then obtain s e where se: "sd = Some s" "ed = Some e" by auto
    with a g have "forEachEvent rt (Some s) (Some e) (breaks semInfo) [] scheduleData = Inr rows"
      by (simp add: csvEvents_def)
    from forEachEvent_Inr [OF this] g se show ?thesis by (simp add: eventDates_def)
  qed
qed

lemma csvEvents_total:
  "breaks semInfo = NoBreaks \<or> (\<exists>bs. breaks semInfo = Breaks bs \<and> None \<notin> set bs) \<Longrightarrow>
     \<exists>rows. csvEvents rt now scheduleData semInfo = Inr rows"
proof -
  assume "breaks semInfo = NoBreaks \<or> (\<exists>bs. breaks semInfo = Breaks bs \<and> None \<notin> set bs)"
  then have "\<forall>d. \<exists>b. isBreakWeek rt d (breaks semInfo) = Inr b"
    using isBreakWeek_total by blast
  from forEachEvent_total [OF this] show ?thesis
    by (simp add: csvEvents_def split: prod.splits)
qed

lemma csvEvents_eval:
  assumes "getSemesterDates rt now si = (Some s, Some e)"
    and "breaks si = NoBreaks \<or> (\<exists>bs. breaks si = Breaks bs \<and> None \<notin> set bs)"
  shows "csvEvents rt now sd si =
           Inr (concat (map (\<lambda>course. map (csvEventOf course) (eventDates rt (breaks si) s e course)) sd))"
proof -
  from csvEvents_total [OF assms(2), of rt now sd] obtain rows
    where r: "csvEvents rt now sd si = Inr rows" by blast
  from csvEvents_Inr [OF r] assms(1) r show ?thesis by (simp add: eventDates_def)
qed



lemma getSemesterDates_sample:
  "getSemesterDates rt now (sampleSemester s e bs) = (Some s, Some e)"
  by (simp add: getSemesterDates_def sampleSemester_def)

lemma getSemesterDates_json:
  "s \<noteq> [] \<Longrightarrow> e \<noteq> [] \<Longrightarrow>
     getSemesterDates sampleRuntime now (jsonSemester s e bs) = (isoDate s, isoDate e)"
  by (simp add: getSemesterDates_def jsonSemester_def sampleRuntime_def)

lemma breaks_sample: "breaks (sampleSemester s e bs) = bs" "breaks (jsonSemester a b bs) = bs"
  by (simp_all add: sampleSemester_def jsonSemester_def)

text \<open>The values the concrete checks below are made of, each computed on its own.\<close>

lemma isoDate_september:
  "isoDate ''2024-09-02'' = Some (newDate 2024 8 2)"
  "isoDate ''2024-09-30'' = Some (newDate 2024 8 30)"
  by code_simp+

lemma weeks_september:
  "weeks (newDate 2024 8 30) (newDate 2024 8 2)
     = [newDate 2024 8 2, newDate 2024 8 9, newDate 2024 8 16, newDate 2024 8 23, newDate 2024 8 30]"
  by code_simp

lemma first_september: "getFirstWeekdayOccurrence (newDate 2024 8 2) 1 = newDate 2024 8 2"
  by code_simp

lemma notDefault_september:
  "map inDefaultBreak
     [newDate 2024 8 2, newDate 2024 8 9, newDate 2024 8 16, newDate 2024 8 23, newDate 2024 8 30]
   = [False, False, False, False, False]"
  by code_simp

lemma formatDate_september:
  "map formatDate
     [newDate 2024 8 2, newDate 2024 8 9, newDate 2024 8 16, newDate 2024 8 23, newDate 2024 8 30]
   = [''09/02/2024'', ''09/09/2024'', ''09/16/2024'', ''09/23/2024'', ''09/30/2024'']"
  by code_simp

lemma toNumber_iso:
  "toNumber sampleRuntime ''2024-09-09'' = NaN" "toNumber sampleRuntime ''2024-09-16'' = NaN"
  by (simp_all add: sampleRuntime_def digitsNumber_def isDigit_def)

lemma inRange_september:
  "map (\<lambda>d. newDate 2024 8 9 \<le> d \<and> d \<le> newDate 2024 8 16)
     [newDate 2024 8 2, newDate 2024 8 9, newDate 2024 8 16, newDate 2024 8 23, newDate 2024 8 30]
   = [False, True, True, False, False]"
  by code_simp

lemma first_monday: "getFirstWeekdayOccurrence (newDate 2024 8 2) 0 = newDate 2024 8 8"
  by code_simp

lemma weeks_monday:
  "weeks (newDate 2024 8 15) (newDate 2024 8 8) = [newDate 2024 8 8, newDate 2024 8 15]"
  by code_simp

lemma notDefault_monday:
  "map inDefaultBreak [newDate 2024 8 8, newDate 2024 8 15] = [False, False]"
  by code_simp

lemma formatDate_monday:
  "map formatDate [newDate 2024 8 8, newDate 2024 8 15] = [''09/08/2024'', ''09/15/2024'']"
  by code_simp






text \<open>
  Claim C1. The meetings number the weekdays from Monday, 0 to 6: the row of the feed
  taught on Mondays and the day string \<open>Mo\<close> both give the index 0. The first occurrence is
  computed with \<open>getDay\<close>, which numbers the weekdays from Sunday. So for the weekday 0 and
  the start date Monday 2 September 2024 the first occurrence is not the start date, it is
  Sunday 8 September, six days later; and from Tuesday 3 September it is five days later,
  not six.
\<close>

theorem getFirstWeekdayOccurrence_monday_is_sunday:
  "extractDaysFromSchedule mondayRow = [0]
   \<and> parseDays (Str ''Mo'') = [0]
   \<and> getDay (newDate 2024 8 2) = 1
   \<and> getFirstWeekdayOccurrence (newDate 2024 8 2) 0 = addDays (newDate 2024 8 2) 6
   \<and> getFirstWeekdayOccurrence (newDate 2024 8 2) 0 \<noteq> newDate 2024 8 2
   \<and> getDay (getFirstWeekdayOccurrence (newDate 2024 8 2) 0) = 0
   \<and> getDay (newDate 2024 8 3) = 2
   \<and> getFirstWeekdayOccurrence (newDate 2024 8 3) 0 = addDays (newDate 2024 8 3) 5
   \<and> map_sum id (map (\<lambda>e. map_of e ''Start Date''))
        (csvEvents sampleRuntime 0 [sampleEvent 0]
           (sampleSemester (newDate 2024 8 2) (newDate 2024 8 15) NoBreaks))
      = Inr [Some ''09/08/2024'', Some ''09/15/2024'']"
proof -
  have a: "extractDaysFromSchedule mondayRow = [0]" by code_simp
  have b: "parseDays (Str ''Mo'') = [0]" by code_simp
  have c: "getDay (newDate 2024 8 2) = 1" by code_simp
  have d: "getFirstWeekdayOccurrence (newDate 2024 8 2) 0 = addDays (newDate 2024 8 2) 6"
    by code_simp
  have e: "getFirstWeekdayOccurrence (newDate 2024 8 2) 0 \<noteq> newDate 2024 8 2" by code_simp
  have f: "getDay (getFirstWeekdayOccurrence (newDate 2024 8 2) 0) = 0" by code_simp
  have g: "getDay (newDate 2024 8 3) = 2" by code_simp
  have h: "getFirstWeekdayOccurrence (newDate 2024 8 3) 0 = addDays (newDate 2024 8 3) 5"
    by code_simp
  have "eDay (sampleEvent 0) = 0" by (simp add: sampleEvent_def)
  then have i: "map_sum id (map (\<lambda>e. map_of e ''Start Date''))
        (csvEvents sampleRuntime 0 [sampleEvent 0]
           (sampleSemester (newDate 2024 8 2) (newDate 2024 8 15) NoBreaks))
      = Inr [Some ''09/08/2024'', Some ''09/15/2024'']"
    using notDefault_monday formatDate_monday
    by (simp add: csvEvents_eval [OF getSemesterDates_sample] breaks_sample eventDates_def
          first_monday weeks_monday isBreakWeek_NoBreaks csvEventOf_def)
  from a b c d e f g h i show ?thesis by blast
qed




text \<open>
  Claim C3. A JSON body gives the bounds of a configured break as strings. The dates of the
  semester are converted with \<^verbatim>\<open>new Date\<close>, the bounds of a break are compared as they
  come: a string such as \<open>2024-09-09\<close> is no numeric literal, the comparison with it is
  false, and the range suppresses nothing. For the Monday event of the sample, the semester
  from 2 to 30 September 2024 and the configured break from 9 to 16 September, the rows of
  9 and 16 September are emitted; with the same bounds as \<^verbatim>\<open>Date\<close> objects they are
  not.
\<close>

theorem csvEvents_string_break_bounds_emitted:
  "toNumber sampleRuntime ''2024-09-09'' = NaN
   \<and> isBreakWeek sampleRuntime (newDate 2024 8 9)
        (Breaks [Some \<lparr> start = Raw (Str ''2024-09-09''), finish = Raw (Str ''2024-09-16'') \<rparr>])
      = Inr False
   \<and> map_sum id (map (\<lambda>e. map_of e ''Start Date''))
        (csvEvents sampleRuntime 0 [sampleEvent 1]
           (jsonSemester ''2024-09-02'' ''2024-09-30''
              (Breaks [Some \<lparr> start = Raw (Str ''2024-09-09''),
                              finish = Raw (Str ''2024-09-16'') \<rparr>])))
      = Inr [Some ''09/02/2024'', Some ''09/09/2024'', Some ''09/16/2024'',
             Some ''09/23/2024'', Some ''09/30/2024'']
   \<and> map_sum id (map (\<lambda>e. map_of e ''Start Date''))
        (csvEvents sampleRuntime 0 [sampleEvent 1]
           (jsonSemester ''2024-09-02'' ''2024-09-30''
              (Breaks [Some \<lparr> start = DateObj (newDate 2024 8 9),
                              finish = DateObj (newDate 2024 8 16) \<rparr>])))
      = Inr [Some ''09/02/2024'', Some ''09/23/2024'', Some ''09/30/2024'']"
proof -
  let ?str = "[Some \<lparr> start = Raw (Str ''2024-09-09''), finish = Raw (Str ''2024-09-16'') \<rparr>]"
  let ?obj = "[Some \<lparr> start = DateObj (newDate 2024 8 9), finish = DateObj (newDate 2024 8 16) \<rparr>]"
  have g: "getSemesterDates sampleRuntime 0 (jsonSemester ''2024-09-02'' ''2024-09-30'' bs)
             = (Some (newDate 2024 8 2), Some (newDate 2024 8 30))" for bs
    by (simp add: getSemesterDates_json isoDate_september)
  have a: "toNumber sampleRuntime ''2024-09-09'' = NaN"
    by (simp add: toNumber_iso)
  have b: "isBreakWeek sampleRuntime (newDate 2024 8 9) (Breaks ?str) = Inr False"
    using notDefault_september
    by (simp add: isBreakWeek_Breaks toNumber_iso)
  have ed: "eDay (sampleEvent 1) = 1" by (simp add: sampleEvent_def)
  have c: "map_sum id (map (\<lambda>e. map_of e ''Start Date''))
        (csvEvents sampleRuntime 0 [sampleEvent 1]
           (jsonSemester ''2024-09-02'' ''2024-09-30'' (Breaks ?str)))
      = Inr [Some ''09/02/2024'', Some ''09/09/2024'', Some ''09/16/2024'',
             Some ''09/23/2024'', Some ''09/30/2024'']"
    using notDefault_september formatDate_september ed
    by (simp add: csvEvents_eval [OF g] breaks_sample eventDates_def first_september
          weeks_september isBreakWeek_Breaks toNumber_iso csvEventOf_def)
  have d: "map_sum id (map (\<lambda>e. map_of e ''Start Date''))
        (csvEvents sampleRuntime 0 [sampleEvent 1]
           (jsonSemester ''2024-09-02'' ''2024-09-30'' (Breaks ?obj)))
      = Inr [Some ''09/02/2024'', Some ''09/23/2024'', Some ''09/30/2024'']"
    using notDefault_september formatDate_september inRange_september ed
    by (simp add: csvEvents_eval [OF g] breaks_sample eventDates_def first_september
          weeks_september isBreakWeek_Breaks csvEventOf_def)
  from a b c d show ?thesis by blast
qed

section \<open>Properties of the schedule feed\<close>

lemma processItem_keys:
  "map fst (processItem sm x) =
     (if sectionKey x \<in> set (map fst sm) then map fst sm else map fst sm @ [sectionKey x])"
  by (auto simp: processItem_def Let_def map_of_eq_None_iff split: option.splits)


lemma processItem_schedule:
  assumes "(k, s') \<in> set (processItem sm x)" and "distinct (map fst sm)"
  shows "(\<exists>s. (k, s) \<in> set sm \<and>
            sSchedule s' = sSchedule s @ (if k = sectionKey x then (case rowMeeting x of Some m \<Rightarrow> [m] | None \<Rightarrow> []) else []))
         \<or> (k = sectionKey x \<and> k \<notin> set (map fst sm) \<and>
            sSchedule s' = (case rowMeeting x of Some m \<Rightarrow> [m] | None \<Rightarrow> []))"
  using assms
  by (auto simp: processItem_def Let_def map_of_eq_None_iff newSection_def
           split: option.splits if_splits)

lemma map_filter_snoc:
  "List.map_filter f (xs @ [x]) = List.map_filter f xs @ (case f x of Some y \<Rightarrow> [y] | None \<Rightarrow> [])"
  by (simp add: List.map_filter_def split: option.splits)

lemma sectionsInv_step:
  assumes "sectionsInv sm rows"
  shows "sectionsInv (processItem sm x) (rows @ [x])"
proof -
  from assms have d: "distinct (map fst sm)" and ks: "set (map fst sm) = sectionKey ` set rows"
    and sch: "\<And>k s. (k, s) \<in> set sm \<Longrightarrow>
           sSchedule s = List.map_filter rowMeeting (filter (\<lambda>i. sectionKey i = k) rows)"
    by (auto simp: sectionsInv_def)
  have d': "distinct (map fst (processItem sm x))"
    using d by (simp add: processItem_keys)
  have ks': "set (map fst (processItem sm x)) = sectionKey ` set (rows @ [x])"
    using ks by (auto simp: processItem_keys)
  have sch': "sSchedule s' = List.map_filter rowMeeting (filter (\<lambda>i. sectionKey i = k) (rows @ [x]))"
    if "(k, s') \<in> set (processItem sm x)" for k s'
  proof -
    from processItem_schedule [OF that d] show ?thesis
    proof
      assume "\<exists>s. (k, s) \<in> set sm \<and>
            sSchedule s' = sSchedule s @ (if k = sectionKey x then (case rowMeeting x of Some m \<Rightarrow> [m] | None \<Rightarrow> []) else [])"
      then obtain s where s: "(k, s) \<in> set sm"
        "sSchedule s' = sSchedule s @ (if k = sectionKey x then (case rowMeeting x of Some m \<Rightarrow> [m] | None \<Rightarrow> []) else [])"
        by blast
      with sch [OF s(1)] show ?thesis by (simp add: map_filter_snoc)
    next
      assume a: "k = sectionKey x \<and> k \<notin> set (map fst sm) \<and>
            sSchedule s' = (case rowMeeting x of Some m \<Rightarrow> [m] | None \<Rightarrow> [])"
      then have "k \<notin> set (map fst sm)" by blast
      with ks have "k \<notin> sectionKey ` set rows" by simp
      then have "\<forall>i \<in> set rows. sectionKey i \<noteq> k" by blast
      then have "filter (\<lambda>i. sectionKey i = k) rows = []"
        by (simp add: filter_empty_conv)
      moreover from a have "k = sectionKey x"
        "sSchedule s' = (case rowMeeting x of Some m \<Rightarrow> [m] | None \<Rightarrow> [])" by auto
      ultimately show ?thesis
        by (simp add: map_filter_simps split: option.splits)
    qed
  qed
  from d' ks' sch' show ?thesis unfolding sectionsInv_def by blast
qed

lemma sectionsInv_sectionsMapOf: "sectionsInv (sectionsMapOf rows) rows"
proof (induction rows rule: rev_induct)
  case Nil
  show ?case by (simp add: sectionsInv_def sectionsMapOf_def)
next
  case (snoc x xs)
  then show ?case by (simp add: sectionsMapOf_def sectionsInv_step)
qed

lemma convertTimeFormat_nonempty: "convertTimeFormat v = Some r \<Longrightarrow> r \<noteq> []"
  by (cases v) (auto split: if_splits option.splits prod.splits)

lemma extractDays_truthy:
  "extractDaysFromSchedule item \<noteq> [] \<Longrightarrow>
     truthy (modays item) \<or> truthy (tuesdays item) \<or> truthy (wednesdays item)
     \<or> truthy (thursdays item) \<or> truthy (fridays item) \<or> truthy (saturdays item)
     \<or> truthy (sundays item)"
  by (auto simp: extractDaysFromSchedule_def split: if_splits)

lemma rowMeeting_iff:
  "rowMeeting item \<noteq> None \<longleftrightarrow>
     extractDaysFromSchedule item \<noteq> [] \<and> convertTimeFormat (classStartTime item) \<noteq> None
     \<and> convertTimeFormat (classEndTime item) \<noteq> None"
proof
  assume "rowMeeting item \<noteq> None"
  then show "extractDaysFromSchedule item \<noteq> [] \<and> convertTimeFormat (classStartTime item) \<noteq> None
     \<and> convertTimeFormat (classEndTime item) \<noteq> None"
    by (auto simp: rowMeeting_def split: if_splits option.splits)
next
  assume a: "extractDaysFromSchedule item \<noteq> [] \<and> convertTimeFormat (classStartTime item) \<noteq> None
     \<and> convertTimeFormat (classEndTime item) \<noteq> None"
  then obtain st en where t: "convertTimeFormat (classStartTime item) = Some st"
    "convertTimeFormat (classEndTime item) = Some en" by auto
  then have "st \<noteq> []" "en \<noteq> []" by (auto dest: convertTimeFormat_nonempty)
  with a t extractDays_truthy [of item] show "rowMeeting item \<noteq> None"
    by (simp add: rowMeeting_def)
qed

lemma rowMeeting_Some:
  "rowMeeting item = Some m \<Longrightarrow>
     mDays m = extractDaysFromSchedule item
     \<and> convertTimeFormat (classStartTime item) = Some (mStartTime m)
     \<and> convertTimeFormat (classEndTime item) = Some (mEndTime m)"
  by (auto simp: rowMeeting_def split: if_splits option.splits)

text \<open>
  Claim C4. For every response of the schedule feed: (1) the rows with one key, the section
  and the component code, are merged into one section: the map holds each key once, holds
  the key of every row, and the schedule of the section under a key is the list of the
  meetings of the rows with that key, in their order; (2) a section is in the output
  exactly when it is in the map with a schedule that is not empty, so every section of the
  output has a meeting; (3) a row gives a meeting exactly when its day list is not empty
  and both its times convert, and the meeting holds these days and times.
\<close>

theorem processScheduleResponse_merges_and_filters:
  "distinct (map fst (sectionsMapOf rows))
   \<and> set (map fst (sectionsMapOf rows)) = sectionKey ` set rows
   \<and> (\<forall>(k, s) \<in> set (sectionsMapOf rows).
         sSchedule s = List.map_filter rowMeeting (filter (\<lambda>i. sectionKey i = k) rows))
   \<and> processScheduleResponse rows =
         filter (\<lambda>s. sSchedule s \<noteq> []) (map snd (sectionsMapOf rows))
   \<and> (\<forall>s \<in> set (processScheduleResponse rows). sSchedule s \<noteq> [])
   \<and> (rowMeeting item \<noteq> None \<longleftrightarrow>
         extractDaysFromSchedule item \<noteq> []
         \<and> convertTimeFormat (classStartTime item) \<noteq> None
         \<and> convertTimeFormat (classEndTime item) \<noteq> None)
   \<and> (rowMeeting item = Some m \<longrightarrow>
         mDays m = extractDaysFromSchedule item
         \<and> convertTimeFormat (classStartTime item) = Some (mStartTime m)
         \<and> convertTimeFormat (classEndTime item) = Some (mEndTime m))"
proof -
  from sectionsInv_sectionsMapOf [of rows]
  have a: "distinct (map fst (sectionsMapOf rows))"
    and b: "set (map fst (sectionsMapOf rows)) = sectionKey ` set rows"
    and c: "\<forall>(k, s) \<in> set (sectionsMapOf rows).
         sSchedule s = List.map_filter rowMeeting (filter (\<lambda>i. sectionKey i = k) rows)"
    unfolding sectionsInv_def by blast+
  have d: "processScheduleResponse rows =
         filter (\<lambda>s. sSchedule s \<noteq> []) (map snd (sectionsMapOf rows))"
    by (simp add: processScheduleResponse_def)
  have e: "\<forall>s \<in> set (processScheduleResponse rows). sSchedule s \<noteq> []"
    by (simp add: processScheduleResponse_def)
  from a b c d e rowMeeting_iff [of item] rowMeeting_Some [of item m] show ?thesis by blast
qed

theorem processScheduleResponse_merges_and_filters_witness:
  "rowMeeting mondayRow \<noteq> None
   \<and> mDays (the (rowMeeting mondayRow)) = [0]
   \<and> map fst (sectionsMapOf [mondayRow, mondayRow]) = [sectionKey mondayRow]
   \<and> map sSchedule (processScheduleResponse [mondayRow, mondayRow])
        = [[the (rowMeeting mondayRow), the (rowMeeting mondayRow)]]
   \<and> sSchedule (hd (processScheduleResponse [mondayRow, mondayRow])) \<noteq> []
   \<and> processScheduleResponse [mondayRow\<lparr> modays := Str ''N'' \<rparr>] = []"
proof -
  let ?rows = "[mondayRow, mondayRow]"
  have x: "extractDaysFromSchedule mondayRow = [0]"
    by (simp add: extractDaysFromSchedule_def mondayRow_def)
  have y: "convertTimeFormat (classStartTime mondayRow) = Some ''11:45''"
    by (simp add: mondayRow_def isDigit_def)
  have z: "convertTimeFormat (classEndTime mondayRow) = Some ''13:00''"
    by (simp add: mondayRow_def isDigit_def)
  from x y z have ne: "rowMeeting mondayRow \<noteq> None"
    using processScheduleResponse_merges_and_filters [of ?rows mondayRow undefined] by simp
  then obtain m where rm: "rowMeeting mondayRow = Some m" by blast
  with x have md: "mDays m = [0]"
    using processScheduleResponse_merges_and_filters [of ?rows mondayRow m] by simp
  have sm: "sectionsMapOf ?rows =
      [(sectionKey mondayRow, (newSection mondayRow)\<lparr> sSchedule := [m, m] \<rparr>)]"
    by (simp add: sectionsMapOf_def processItem_def rm Let_def newSection_def)
  then have k: "map fst (sectionsMapOf ?rows) = [sectionKey mondayRow]" by simp
  from sm have p: "processScheduleResponse ?rows = [(newSection mondayRow)\<lparr> sSchedule := [m, m] \<rparr>]"
    by (simp add: processScheduleResponse_def)
  then have s: "map sSchedule (processScheduleResponse ?rows) = [[m, m]]" by simp
  from p have "hd (processScheduleResponse ?rows) \<in> set (processScheduleResponse ?rows)" by simp
  then have h: "sSchedule (hd (processScheduleResponse ?rows)) \<noteq> []"
    using processScheduleResponse_merges_and_filters [of ?rows mondayRow m] by blast
  have "extractDaysFromSchedule (mondayRow\<lparr> modays := Str ''N'' \<rparr>) = []"
    by (simp add: extractDaysFromSchedule_def mondayRow_def)
  then have "rowMeeting (mondayRow\<lparr> modays := Str ''N'' \<rparr>) = None"
    by (simp add: rowMeeting_def split: option.splits)
  then have e: "processScheduleResponse [mondayRow\<lparr> modays := Str ''N'' \<rparr>] = []"
    by (simp add: processScheduleResponse_def sectionsMapOf_def processItem_def Let_def newSection_def)
  from ne md k s h e rm show ?thesis by simp
qed

section \<open>Properties of the batch\<close>

lemma getCourseScheduleData_Some:
  "\<exists>evs st'. getCourseScheduleData g now st (Some ci) = (Inr evs, st')"
  by (auto simp: getCourseScheduleData_def Let_def split: prod.splits sum.splits)

lemma generateScheduleLoop_acc:
  "\<exists>evs st'. generateScheduleLoop g now [] st (map Some cs) = (Inr evs, st')
     \<and> generateScheduleLoop g now acc st (map Some cs) = (Inr (acc @ evs), st')"
proof (induction cs arbitrary: acc st)
  case Nil
  show ?case by simp
next
  case (Cons c cs)
  from getCourseScheduleData_Some [of g now st c] obtain r st1
    where r: "getCourseScheduleData g now st (Some c) = (Inr r, st1)" by blast
  from Cons.IH [of st1 "acc @ r"] obtain evs st2
    where e: "generateScheduleLoop g now [] st1 (map Some cs) = (Inr evs, st2)"
      "generateScheduleLoop g now (acc @ r) st1 (map Some cs) = (Inr ((acc @ r) @ evs), st2)"
    by blast
  from Cons.IH [of st1 r] e(1)
  have e2: "generateScheduleLoop g now r st1 (map Some cs) = (Inr (r @ evs), st2)" by auto
  from Cons.IH [of st1 acc] e(1)
  have e3: "generateScheduleLoop g now acc st1 (map Some cs) = (Inr (acc @ evs), st2)" by auto
  from r e e2 e3 show ?case by (cases "r = []") simp_all
qed

lemma generateSchedule_total:
  "\<exists>evs st'. generateSchedule g now st (map Some cs) = (Inr evs, st')"
  using generateScheduleLoop_acc [of g now st cs "[]"] by (auto simp: generateSchedule_def)

lemma generateSchedule_Cons:
  assumes "getCourseScheduleData g now st (Some c) = (r, st1)"
  shows "generateSchedule g now st (map Some (c # cs)) =
           (Inr (eventsOf r @ eventsOf (fst (generateSchedule g now st1 (map Some cs)))),
            snd (generateSchedule g now st1 (map Some cs)))"
proof -
  from getCourseScheduleData_Some [of g now st c] assms obtain evs where r: "r = Inr evs" by auto
  from generateScheduleLoop_acc [of g now st1 cs evs] obtain rest st2
    where e: "generateScheduleLoop g now [] st1 (map Some cs) = (Inr rest, st2)"
      "generateScheduleLoop g now evs st1 (map Some cs) = (Inr (evs @ rest), st2)" by blast
  with assms r show ?thesis
    by (cases "evs = []") (simp_all add: generateSchedule_def eventsOf_def)
qed

lemma generateSchedule_append:
  "generateSchedule g now st (map Some (xs @ ys)) =
     (Inr (eventsOf (fst (generateSchedule g now st (map Some xs)))
           @ eventsOf (fst (generateSchedule g now (snd (generateSchedule g now st (map Some xs))) (map Some ys)))),
      snd (generateSchedule g now (snd (generateSchedule g now st (map Some xs))) (map Some ys)))"
proof (induction xs arbitrary: st)
  case Nil
  from generateSchedule_total [of g now st ys] show ?case
    by (auto simp: generateSchedule_def eventsOf_def)
next
  case (Cons c xs)
  obtain r st1 where r: "getCourseScheduleData g now st (Some c) = (r, st1)"
    by (cases "getCourseScheduleData g now st (Some c)")
  from generateSchedule_Cons [OF r, of "xs @ ys"] generateSchedule_Cons [OF r, of xs] Cons.IH [of st1]
  show ?case by (simp add: eventsOf_def)
qed

text \<open>
  Claim C8. For every batch of course records passed to \<open>generateSchedule\<close>, the call
  returns, and the events of the result are the events of the records before a record,
  what that record contributes, and the events of the records behind it; a record whose
  processing fails (the body of the \<^verbatim>\<open>try\<close> throws: the client throws, the course is
  not found, the section is not found) contributes no event, and the records behind it are
  processed all the same.
\<close>

theorem generateSchedule_isolates_failure:
  "(\<exists>evs. fst (generateSchedule g now st (map Some (xs @ c # ys))) = Inr evs)
   \<and> fst (generateSchedule g now st (map Some (xs @ c # ys))) =
       Inr (eventsOf (fst (generateSchedule g now st (map Some xs)))
            @ eventsOf (fst (getCourseScheduleData g now
                               (snd (generateSchedule g now st (map Some xs))) (Some c)))
            @ eventsOf (fst (generateSchedule g now
                 (snd (getCourseScheduleData g now
                        (snd (generateSchedule g now st (map Some xs))) (Some c)))
                 (map Some ys))))
   \<and> ((\<exists>e. fst (courseScheduleTry g (snd (generateSchedule g now st (map Some xs)))
                  (iCode c) (iSection c) (termOf now c)) = Inl e) \<longrightarrow>
       fst (generateSchedule g now st (map Some (xs @ c # ys))) =
         Inr (eventsOf (fst (generateSchedule g now st (map Some xs)))
              @ eventsOf (fst (generateSchedule g now
                   (snd (getCourseScheduleData g now
                          (snd (generateSchedule g now st (map Some xs))) (Some c)))
                   (map Some ys)))))
   \<and> (fst (g s code term) = Inl e \<longrightarrow> fst (courseScheduleTry g s code sec term) = Inl e)
   \<and> (fst (g s code term) = Inr None \<longrightarrow> (\<exists>e'. fst (courseScheduleTry g s code sec term) = Inl e'))"
proof -
  let ?st1 = "snd (generateSchedule g now st (map Some xs))"
  obtain r st2 where r: "getCourseScheduleData g now ?st1 (Some c) = (r, st2)"
    by (cases "getCourseScheduleData g now ?st1 (Some c)")
  have main: "fst (generateSchedule g now st (map Some (xs @ c # ys))) =
     Inr (eventsOf (fst (generateSchedule g now st (map Some xs))) @ eventsOf r
          @ eventsOf (fst (generateSchedule g now st2 (map Some ys))))"
    using generateSchedule_append [of g now st xs "c # ys"] generateSchedule_Cons [OF r, of ys]
    by (simp add: eventsOf_def)
  have fail: "eventsOf r = []"
    if "\<exists>e. fst (courseScheduleTry g ?st1 (iCode c) (iSection c) (termOf now c)) = Inl e"
    using that r
    by (auto simp: getCourseScheduleData_def eventsOf_def termOf_def Let_def
             split: option.splits prod.splits sum.splits)
  have t1: "fst (g s code term) = Inl e \<longrightarrow> fst (courseScheduleTry g s code sec term) = Inl e"
    by (cases "g s code term") (auto simp: courseScheduleTry_def)
  have t2: "fst (g s code term) = Inr None \<longrightarrow> (\<exists>e'. fst (courseScheduleTry g s code sec term) = Inl e')"
    by (cases "g s code term") (auto simp: courseScheduleTry_def)
  from main fail r t1 t2 show ?thesis by auto
qed

theorem generateSchedule_isolates_failure_witness:
  "fst (courseScheduleTry sampleClient 1 ''BOOM 100'' None ''20242'') = Inl (Error ''timeout'')
   \<and> map_sum id (map eDay) (fst (generateSchedule sampleClient 0 0
        (map Some [sampleInfo ''COMP 248'' (Some ''A''), sampleInfo ''BOOM 100'' None,
           sampleInfo ''COMP 999'' None, sampleInfo ''COMP 248'' (Some ''ZZ''),
           sampleInfo ''COMP 248'' None]))) = Inr [0, 2, 0, 2]
   \<and> fst (generateSchedule sampleClient 0 0
        (map Some ([sampleInfo ''COMP 248'' (Some ''A'')] @ sampleInfo ''BOOM 100'' None
                     # [sampleInfo ''COMP 248'' None])))
      = Inr (eventsOf (fst (generateSchedule sampleClient 0 0 (map Some [sampleInfo ''COMP 248'' (Some ''A'')])))
        @ eventsOf (fst (generateSchedule sampleClient 0 2 (map Some [sampleInfo ''COMP 248'' None]))))
   \<and> fst (generateSchedule sampleClient 0 0 [Some (sampleInfo ''COMP 248'' None), None])
      = Inl TypeError"
proof -
  have a: "fst (courseScheduleTry sampleClient 1 ''BOOM 100'' None ''20242'') = Inl (Error ''timeout'')"
    by code_simp
  have b: "map_sum id (map eDay) (fst (generateSchedule sampleClient 0 0
        (map Some [sampleInfo ''COMP 248'' (Some ''A''), sampleInfo ''BOOM 100'' None,
           sampleInfo ''COMP 999'' None, sampleInfo ''COMP 248'' (Some ''ZZ''),
           sampleInfo ''COMP 248'' None]))) = Inr [0, 2, 0, 2]" by code_simp
  have s1: "snd (generateSchedule sampleClient 0 0 (map Some [sampleInfo ''COMP 248'' (Some ''A'')])) = 1"
    by code_simp
  have s2: "snd (getCourseScheduleData sampleClient 0 1 (Some (sampleInfo ''BOOM 100'' None))) = 2"
    by code_simp
  have t: "termOf 0 (sampleInfo ''BOOM 100'' None) = ''20242''"
    by (simp add: termOf_def sampleInfo_def)
  have n: "fst (generateSchedule sampleClient 0 0 [Some (sampleInfo ''COMP 248'' None), None])
      = Inl TypeError" by code_simp
  have i: "iCode (sampleInfo ''BOOM 100'' None) = ''BOOM 100''"
    "iSection (sampleInfo ''BOOM 100'' None) = None" by (simp_all add: sampleInfo_def)
  from a s1 s2 t i
  have "fst (generateSchedule sampleClient 0 0
        (map Some ([sampleInfo ''COMP 248'' (Some ''A'')] @ sampleInfo ''BOOM 100'' None
                     # [sampleInfo ''COMP 248'' None])))
      = Inr (eventsOf (fst (generateSchedule sampleClient 0 0 (map Some [sampleInfo ''COMP 248'' (Some ''A'')])))
        @ eventsOf (fst (generateSchedule sampleClient 0 2 (map Some [sampleInfo ''COMP 248'' None]))))"
    using generateSchedule_isolates_failure [of sampleClient 0 0 "[sampleInfo ''COMP 248'' (Some ''A'')]"
        "sampleInfo ''BOOM 100'' None" "[sampleInfo ''COMP 248'' None]" 1 "''BOOM 100''" "''20242''"
        "Error ''timeout''" None, THEN conjunct2, THEN conjunct2, THEN conjunct1]
    by simp
  with a b n show ?thesis by blast
qed

section \<open>Properties of the CSV\<close>

lemma undoubleQuotes_Cons_plain:
  "c \<noteq> CHR 0x22 \<Longrightarrow> undoubleQuotes (c # r) = map_option ((#) c) (undoubleQuotes r)"
  by (cases r) auto

lemma undoubleQuotes_doubleQuotes: "undoubleQuotes (doubleQuotes v) = Some v"
  by (induction v) (simp_all add: doubleQuotes_def undoubleQuotes_Cons_plain)

lemma join_Cons: "join sep (x # xs) = x @ concat (map (\<lambda>y. sep @ y) xs)"
  by (induction xs arbitrary: x) auto

lemma mapE_Inr: "(\<And>x. x \<in> set xs \<Longrightarrow> f x = Inr (g x)) \<Longrightarrow> mapE f xs = Inr (map g xs)"
  by (induction xs) auto

lemma csvLine_csvEventOf:
  "csvLine (csvEventOf course d) =
     Inr (join '','' (map (\<lambda>(h, v). [CHR 0x22] @ doubleQuotes v @ [CHR 0x22]) (csvEventOf course d)))"
  by (simp add: csvLine_def csvEventOf_def headers_def quoteField_def)

lemma csvEvents_members:
  "csvEvents rt now scheduleData semInfo = Inr events \<Longrightarrow> event \<in> set events \<Longrightarrow>
     \<exists>course d. course \<in> set scheduleData \<and> event = csvEventOf course d"
  by (drule csvEvents_Inr) (auto split: option.splits prod.splits)

lemma headerLine:
  "join '','' headers =
     ''Subject,Start Date,Start Time,End Date,End Time,All Day Event,Description,Location,Private''"
  by (simp add: headers_def)

lemma generateCSV_text:
  assumes "csvEvents rt now scheduleData semInfo = Inr events"
  shows "generateCSV rt now scheduleData semInfo =
     Inr (''Subject,Start Date,Start Time,End Date,End Time,All Day Event,Description,Location,Private''
          @ concat (map (\<lambda>event. CHR 0x0A #
               join '','' (map (\<lambda>(h, v). [CHR 0x22] @ doubleQuotes v @ [CHR 0x22]) event))
             events))"
proof -
  let ?g = "\<lambda>event. join '','' (map (\<lambda>(h, v). [CHR 0x22] @ doubleQuotes v @ [CHR 0x22]) event)"
  have "mapE csvLine events = Inr (map ?g events)"
  proof (rule mapE_Inr)
    fix x assume "x \<in> set events"
    from csvEvents_members [OF assms this] obtain course d where "x = csvEventOf course d"
      by blast
    then show "csvLine x = Inr (?g x)" by (simp only: csvLine_csvEventOf)
  qed
  with assms show ?thesis
    by (simp add: generateCSV_def join_Cons headerLine map_map comp_def)
qed

lemma generateCSV_Inr:
  "generateCSV rt now scheduleData semInfo = Inr out \<Longrightarrow>
     \<exists>events. csvEvents rt now scheduleData semInfo = Inr events"
  by (auto simp: generateCSV_def split: sum.splits)

lemma month_range: "0 \<le> getMonth t \<and> getMonth t \<le> 11"
proof -
  have doe: "0 \<le> dayOfEra t \<and> dayOfEra t \<le> 146096" by (simp add: dayOfEra_def)
  then have doc: "0 \<le> dayOfCentury t \<and> dayOfCentury t \<le> 36524"
    unfolding dayOfCentury_def centuryOfEra_def by arith
  have doy: "0 \<le> dayOfMarchYear t \<and> dayOfMarchYear t \<le> 365"
    unfolding dayOfMarchYear_def yearOfCycle_def by arith
  then have "0 \<le> marchMonth t \<and> marchMonth t \<le> 11" unfolding marchMonth_def by arith
  then show ?thesis unfolding getMonth_def by arith
qed

lemma date_range: "1 \<le> getDate t \<and> getDate t \<le> 31"
proof -
  have doy: "0 \<le> dayOfMarchYear t \<and> dayOfMarchYear t \<le> 365"
    unfolding dayOfMarchYear_def yearOfCycle_def by arith
  then show ?thesis unfolding getDate_def marchMonth_def by arith
qed

lemma isDigit_digitChar_any: "isDigit (digitChar n)"
  unfolding isDigit_def digitChar_def by (rule nth_mem) simp

lemma toDecimal_digits: "list_all isDigit (toDecimal n)"
proof (induction n rule: toDecimal.induct)
  case (1 n)
  then show ?case
    by (subst toDecimal.simps) (simp add: isDigit_digitChar_any)
qed

lemma toDecimal_step: "10 \<le> n \<Longrightarrow> toDecimal n = toDecimal (n div 10) @ [digitChar n]"
  by (subst toDecimal.simps) simp

lemma length_toDecimal_2: "n < 100 \<Longrightarrow> length (toDecimal n) \<le> 2"
  by (cases "n < 10") (simp_all add: toDecimal_digit toDecimal_step)

lemma length_toDecimal_4: "1000 \<le> n \<Longrightarrow> n \<le> 9999 \<Longrightarrow> length (toDecimal n) = 4"
proof -
  assume a: "1000 \<le> n" "n \<le> 9999"
  then have "10 \<le> n" "10 \<le> n div 10" "10 \<le> n div 10 div 10" "n div 10 div 10 div 10 < 10"
    by arith+
  then show ?thesis by (simp add: toDecimal_step toDecimal_digit)
qed

lemma padStart2_two: "length s \<le> 2 \<Longrightarrow> s \<noteq> [] \<Longrightarrow> length (padStart2 s) = 2"
  by (simp add: padStart2_def)

lemma padStart2_digits: "list_all isDigit s \<Longrightarrow> list_all isDigit (padStart2 s)"
proof -
  have "isDigit (CHR ''0'')" by (simp add: isDigit_def)
  then show "list_all isDigit s \<Longrightarrow> list_all isDigit (padStart2 s)"
    by (auto simp: padStart2_def list_all_iff)
qed

lemma toDecimal_nonempty: "toDecimal n \<noteq> []"
  by (subst toDecimal.simps) simp

lemma formatDate_shape:
  "formatDate d = padStart2 (toDecimal (nat (getMonth d + 1))) @ ''/''
                    @ padStart2 (toDecimal (nat (getDate d))) @ ''/'' @ intToString (getFullYear d)
   \<and> length (padStart2 (toDecimal (nat (getMonth d + 1)))) = 2
   \<and> list_all isDigit (padStart2 (toDecimal (nat (getMonth d + 1))))
   \<and> length (padStart2 (toDecimal (nat (getDate d)))) = 2
   \<and> list_all isDigit (padStart2 (toDecimal (nat (getDate d))))"
proof -
  from month_range [of d] have m: "0 \<le> getMonth d + 1" "nat (getMonth d + 1) < 100" by auto
  from date_range [of d] have a: "0 \<le> getDate d" "nat (getDate d) < 100" by auto
  from m a have "formatDate d = padStart2 (toDecimal (nat (getMonth d + 1))) @ ''/''
                    @ padStart2 (toDecimal (nat (getDate d))) @ ''/'' @ intToString (getFullYear d)"
    by (simp add: formatDate_def intToString_def Let_def)
  with m a show ?thesis
    by (simp add: padStart2_two length_toDecimal_2 toDecimal_nonempty padStart2_digits toDecimal_digits)
qed

lemma formatDate_four_digit_year:
  assumes "1000 \<le> getFullYear d" "getFullYear d \<le> 9999"
  shows "length (formatDate d) = 10 \<and> list_all isDigit (intToString (getFullYear d))"
proof -
  from assms have "length (toDecimal (nat (getFullYear d))) = 4"
    by (intro length_toDecimal_4) auto
  moreover from assms have "intToString (getFullYear d) = toDecimal (nat (getFullYear d))"
    by (simp add: intToString_def)
  ultimately show ?thesis using formatDate_shape [of d] by (simp add: toDecimal_digits)
qed

text \<open>
  Claim C5. For every list of events and every semester, whenever \<open>generateCSV\<close> returns
  a text (as it does whenever the breaks of the semester are absent or an array without a
  null element), the text begins with the header line of the nine columns Subject, Start
  Date, Start Time, End Date, End Time, All Day Event, Description, Location, Private,
  followed by one line for each row; a line is the nine values of the row in the order of
  the header, each between double quotes with every double quote inside it doubled, and
  joined by commas; in each row Start Date and End Date are the same formatted date, All Day
  Event and Private are the text \<open>False\<close>; a formatted date is two digits of the month, a
  slash, two digits of the day, a slash and the year, which has four digits for the years
  1000 to 9999; and undoing the doubling gives the value back.
\<close>

theorem generateCSV_format:
  "(csvEvents rt now scheduleData semInfo = Inr events \<longrightarrow>
      generateCSV rt now scheduleData semInfo =
        Inr (''Subject,Start Date,Start Time,End Date,End Time,All Day Event,Description,Location,Private''
             @ concat (map (\<lambda>event. CHR 0x0A #
                  join '','' (map (\<lambda>(h, v). [CHR 0x22] @ doubleQuotes v @ [CHR 0x22]) event))
                events))
      \<and> (\<forall>event \<in> set events.
            map fst event = headers
            \<and> (\<exists>d. map_of event ''Start Date'' = Some (formatDate d)
                   \<and> map_of event ''End Date'' = Some (formatDate d))
            \<and> map_of event ''All Day Event'' = Some ''False''
            \<and> map_of event ''Private'' = Some ''False''))
   \<and> (generateCSV rt now scheduleData semInfo = Inr out \<longrightarrow>
         (\<exists>events. csvEvents rt now scheduleData semInfo = Inr events))
   \<and> (breaks semInfo = NoBreaks \<or> (\<exists>bs. breaks semInfo = Breaks bs \<and> None \<notin> set bs) \<longrightarrow>
         (\<exists>events. csvEvents rt now scheduleData semInfo = Inr events))
   \<and> formatDate d = padStart2 (toDecimal (nat (getMonth d + 1))) @ ''/''
                    @ padStart2 (toDecimal (nat (getDate d))) @ ''/'' @ intToString (getFullYear d)
   \<and> length (padStart2 (toDecimal (nat (getMonth d + 1)))) = 2
   \<and> list_all isDigit (padStart2 (toDecimal (nat (getMonth d + 1))))
   \<and> length (padStart2 (toDecimal (nat (getDate d)))) = 2
   \<and> list_all isDigit (padStart2 (toDecimal (nat (getDate d))))
   \<and> (1000 \<le> getFullYear d \<and> getFullYear d \<le> 9999 \<longrightarrow>
         length (formatDate d) = 10 \<and> list_all isDigit (intToString (getFullYear d)))
   \<and> undoubleQuotes (doubleQuotes v) = Some v
   \<and> doubleQuotes (''He said '' @ [CHR 0x22] @ ''hi'' @ [CHR 0x22])
        = ''He said '' @ [CHR 0x22, CHR 0x22] @ ''hi'' @ [CHR 0x22, CHR 0x22]"
proof -
  have rows: "\<forall>event \<in> set events.
         map fst event = headers
         \<and> (\<exists>d. map_of event ''Start Date'' = Some (formatDate d)
                \<and> map_of event ''End Date'' = Some (formatDate d))
         \<and> map_of event ''All Day Event'' = Some ''False''
         \<and> map_of event ''Private'' = Some ''False''"
    if ce: "csvEvents rt now scheduleData semInfo = Inr events"
  proof
    fix event assume "event \<in> set events"
    with ce obtain course d where e: "event = csvEventOf course d"
      by (auto dest: csvEvents_members)
    have "map_of event ''Start Date'' = Some (formatDate d)
          \<and> map_of event ''End Date'' = Some (formatDate d)"
      by (simp add: e csvEventOf_def)
    then have "\<exists>d. map_of event ''Start Date'' = Some (formatDate d)
                \<and> map_of event ''End Date'' = Some (formatDate d)" by blast
    moreover have "map fst event = headers" by (simp add: e csvEventOf_def headers_def)
    moreover have "map_of event ''All Day Event'' = Some ''False''
        \<and> map_of event ''Private'' = Some ''False''" by (simp add: e csvEventOf_def)
    ultimately show "map fst event = headers
         \<and> (\<exists>d. map_of event ''Start Date'' = Some (formatDate d)
                \<and> map_of event ''End Date'' = Some (formatDate d))
         \<and> map_of event ''All Day Event'' = Some ''False''
         \<and> map_of event ''Private'' = Some ''False''" by blast
  qed
  have yr: "1000 \<le> getFullYear d \<and> getFullYear d \<le> 9999 \<longrightarrow>
         length (formatDate d) = 10 \<and> list_all isDigit (intToString (getFullYear d))"
    using formatDate_four_digit_year [of d] by blast
  have ex: "doubleQuotes (''He said '' @ [CHR 0x22] @ ''hi'' @ [CHR 0x22])
        = ''He said '' @ [CHR 0x22, CHR 0x22] @ ''hi'' @ [CHR 0x22, CHR 0x22]"
    by (simp add: doubleQuotes_def)
  have tot: "breaks semInfo = NoBreaks \<or> (\<exists>bs. breaks semInfo = Breaks bs \<and> None \<notin> set bs) \<longrightarrow>
         (\<exists>events. csvEvents rt now scheduleData semInfo = Inr events)"
    using csvEvents_total [of semInfo rt now scheduleData] by blast
  have out: "generateCSV rt now scheduleData semInfo = Inr out \<longrightarrow>
         (\<exists>events. csvEvents rt now scheduleData semInfo = Inr events)"
    using generateCSV_Inr by blast
  from generateCSV_text [of rt now scheduleData semInfo events] rows tot out
    formatDate_shape [of d] yr undoubleQuotes_doubleQuotes [of v] ex
  show ?thesis by blast
qed

lemma weeks_two:
  "weeks (newDate 2024 8 9) (newDate 2024 8 2) = [newDate 2024 8 2, newDate 2024 8 9]"
  by code_simp

lemma year_2024: "getFullYear (newDate 2024 8 2) = 2024"
  by code_simp

theorem generateCSV_format_witness:
  "csvEvents sampleRuntime 0 [sampleEvent 1]
      (sampleSemester (newDate 2024 8 2) (newDate 2024 8 9) NoBreaks)
     = Inr [csvEventOf (sampleEvent 1) (newDate 2024 8 2),
            csvEventOf (sampleEvent 1) (newDate 2024 8 9)]
   \<and> (\<exists>out. generateCSV sampleRuntime 0 [sampleEvent 1]
         (sampleSemester (newDate 2024 8 2) (newDate 2024 8 9) NoBreaks) = Inr out)
   \<and> map_of (csvEventOf (sampleEvent 1) (newDate 2024 8 2)) ''Private'' = Some ''False''
   \<and> 1000 \<le> getFullYear (newDate 2024 8 2) \<and> getFullYear (newDate 2024 8 2) \<le> 9999
   \<and> length (formatDate (newDate 2024 8 2)) = 10
   \<and> formatDate (newDate 2024 8 2) = ''09/02/2024''"
proof -
  let ?si = "sampleSemester (newDate 2024 8 2) (newDate 2024 8 9) NoBreaks"
  let ?rows = "[csvEventOf (sampleEvent 1) (newDate 2024 8 2),
                csvEventOf (sampleEvent 1) (newDate 2024 8 9)]"
  note inst = generateCSV_format [of sampleRuntime 0 "[sampleEvent 1]" ?si ?rows "[]"
      "newDate 2024 8 2" "[]"]
  have "eDay (sampleEvent 1) = 1" by (simp add: sampleEvent_def)
  then have r: "csvEvents sampleRuntime 0 [sampleEvent 1] ?si = Inr ?rows"
    using notDefault_september
    by (simp add: csvEvents_eval [OF getSemesterDates_sample] breaks_sample eventDates_def
          first_september weeks_two isBreakWeek_NoBreaks)
  with inst have o: "\<exists>out. generateCSV sampleRuntime 0 [sampleEvent 1] ?si = Inr out" by blast
  from r inst have p: "map_of (csvEventOf (sampleEvent 1) (newDate 2024 8 2)) ''Private'' = Some ''False''"
    by (meson list.set_intros(1))
  note y = year_2024
  from inst have "1000 \<le> getFullYear (newDate 2024 8 2) \<and> getFullYear (newDate 2024 8 2) \<le> 9999
      \<longrightarrow> length (formatDate (newDate 2024 8 2)) = 10" by blast
  with y have l: "length (formatDate (newDate 2024 8 2)) = 10" by simp
  have f: "formatDate (newDate 2024 8 2) = ''09/02/2024''" using formatDate_september by simp
  from r o p y l f show ?thesis by simp
qed

end
